theory Spec2Isabelle
  imports Main
begin

section \<open>Texture propagation script: data model\<close>

text \<open>
  The script \<^verbatim>\<open>gnn_texture_prop.py\<close> defines one function, \<^verbatim>\<open>process\<close>, that
  orchestrates collaborators defined elsewhere in the repository. Its effects are the
  in-place mutation of the \<^verbatim>\<open>houses\<close> dictionary and the calls it makes; the model
  threads the dictionary explicitly and records every call, together with the
  dictionary as it stands after the call, in a trace.
\<close>

type_synonym house_key = string
type_synonym surface_key = string

text \<open>
  Modelled from the spec: the house classes of \<^verbatim>\<open>plan2scene.common\<close> are not part
  of the sources at hand. A surface has an optional image crop and an optional embedding
  vector; a house is a collection of surfaces. Crops and embeddings are opaque to
  \<^verbatim>\<open>process\<close>, so their types are parameters. A Python dictionary keeps insertion
  order, hence association lists.
\<close>

record ('c, 'e) surface =
  crop :: "'c option"
  embedding :: "'e option"

type_synonym ('c, 'e) house = "(surface_key \<times> ('c, 'e) surface) list"
type_synonym ('c, 'e) houses = "(house_key \<times> ('c, 'e) house) list"

definition surface_at :: "('c, 'e) houses \<Rightarrow> house_key \<Rightarrow> surface_key \<Rightarrow> ('c, 'e) surface option" where
  "surface_at hs hk sk = (case map_of hs hk of None \<Rightarrow> None | Some h \<Rightarrow> map_of h sk)"

definition map_surfaces ::
  "(house_key \<Rightarrow> surface_key \<Rightarrow> ('c, 'e) surface \<Rightarrow> ('c, 'e) surface) \<Rightarrow> ('c, 'e) houses \<Rightarrow> ('c, 'e) houses" where
  "map_surfaces f hs = map (\<lambda>(hk, h). (hk, map (\<lambda>(sk, s). (sk, f hk sk s)) h)) hs"

text \<open>The fields of the configuration manager that \<^verbatim>\<open>process\<close> reads.\<close>

record train_conf =
  bs :: int

record texture_prop_conf =
  device :: string
  train_graph_generator :: string
  val_graph_generator :: string
  train :: train_conf

record texture_gen_conf =
  texture_synth_conf :: string
  checkpoint_path :: string

record config_manager =
  texture_prop :: texture_prop_conf
  texture_gen :: texture_gen_conf

text \<open>
  A graph generator is identified by the call that builds it:
  \<^verbatim>\<open>get_graph_generator(conf, spec, include_target=...)\<close> or
  \<^verbatim>\<open>InferenceHGG(conf=conf, include_target=...)\<close>.
\<close>

datatype graph_generator =
    GetGraphGenerator string bool
  | InferenceHGG bool

fun include_target :: "graph_generator \<Rightarrow> bool" where
  "include_target (GetGraphGenerator spec t) = t"
| "include_target (InferenceHGG t) = t"

text \<open>The only member of \<^verbatim>\<open>ImageSource\<close> that the script names.\<close>

datatype image_source = GNN_PROP

text \<open>
  Modelled from the spec: a graph batch pairs node features (the per-surface embeddings
  or placeholders) with the surfaces they belong to; nodes are surfaces.
\<close>

type_synonym 'e node = "(house_key \<times> surface_key) \<times> 'e option"

record 'e batch =
  batch_generator :: graph_generator
  batch_nodes :: "'e node list"

datatype error = AssertionError | ValueError

datatype 'e event =
    Load_conf_eval string
  | TextureGen_load_checkpoint string
  | TextureProp_load_checkpoint string
  | Select_graph_generator graph_generator
  | Clear_predictions
  | Log_batch nat nat
  | Predict string bool "'e batch"
  | Update_embeddings "'e batch" "'e list" bool
  | Log_synthesizing
  | Fill_textures bool image_source bool

type_synonym ('c, 'e) trace = "('e event \<times> ('c, 'e) houses) list"

text \<open>
  The two pretrained networks are external: the propagation network gives one embedding
  per node of a batch, the synthesis network turns an embedding into a crop.
\<close>

record ('c, 'e) models =
  gnn :: "'e batch \<Rightarrow> nat \<Rightarrow> 'e"
  synth :: "image_source \<Rightarrow> 'e \<Rightarrow> 'c"

section \<open>Collaborators\<close>

text \<open>
  Modelled from the spec: \<^verbatim>\<open>clear_predictions\<close> of \<^verbatim>\<open>plan2scene.texture_prop.utils\<close>
  is missing. It clears the embedding of every surface of every house.
\<close>

definition clear_predictions :: "('c, 'e) houses \<Rightarrow> ('c, 'e) houses" where
  "clear_predictions hs = map_surfaces (\<lambda>hk sk s. s\<lparr>embedding := None\<rparr>) hs"

text \<open>
  Modelled from the spec: \<^verbatim>\<open>update_embeddings\<close> of \<^verbatim>\<open>plan2scene.texture_prop.utils\<close>
  is missing. It merges the predicted embeddings into the houses; an embedding is only
  overwritten if \<^verbatim>\<open>keep_existing_predictions\<close> is false or the surface lacks one.
\<close>

definition set_embedding ::
  "bool \<Rightarrow> ('c, 'e) houses \<Rightarrow> (house_key \<times> surface_key) \<times> 'e \<Rightarrow> ('c, 'e) houses" where
  "set_embedding keep hs ne =
     map_surfaces (\<lambda>hk sk s.
       if (hk, sk) = fst ne \<and> \<not> (keep \<and> embedding s \<noteq> None)
       then s\<lparr>embedding := Some (snd ne)\<rparr> else s) hs"

definition update_embeddings ::
  "('c, 'e) houses \<Rightarrow> 'e batch \<Rightarrow> 'e list \<Rightarrow> bool \<Rightarrow> ('c, 'e) houses" where
  "update_embeddings hs b output keep =
     foldl (set_embedding keep) hs (zip (map fst (batch_nodes b)) output)"

text \<open>
  Modelled from the spec: \<^verbatim>\<open>fill_textures\<close> of \<^verbatim>\<open>plan2scene.crop_select.util\<close> is
  missing. It synthesizes a crop for every surface that has an embedding, skipping
  surfaces that already have a texture when asked to.
\<close>

definition fill_textures ::
  "('c, 'e) models \<Rightarrow> ('c, 'e) houses \<Rightarrow> image_source \<Rightarrow> bool \<Rightarrow> ('c, 'e) houses" where
  "fill_textures m hs src skip_existing_textures =
     map_surfaces (\<lambda>hk sk s.
       case embedding s of
         None \<Rightarrow> s
       | Some e \<Rightarrow> if skip_existing_textures \<and> crop s \<noteq> None then s
                   else s\<lparr>crop := Some (synth m src e)\<rparr>) hs"

text \<open>
  Modelled from the spec: \<^verbatim>\<open>HouseDataset\<close> is missing. It holds one graph per house, in
  the order of the dictionary, whose nodes are the surfaces of the house; a graph is
  built from the house as it stands when the item is fetched.
\<close>

definition house_graph :: "house_key \<times> ('c, 'e) house \<Rightarrow> 'e node list" where
  "house_graph kh = map (\<lambda>(sk, s). ((fst kh, sk), embedding s)) (snd kh)"

text \<open>
  The data loader of the graph library groups \<^verbatim>\<open>batch_size\<close> consecutive items into
  one batch, in order, the last batch being shorter when the items run out. It rejects a
  batch size that is not positive when it is constructed.
\<close>

definition loader_len :: "nat \<Rightarrow> ('c, 'e) houses \<Rightarrow> nat" where
  "loader_len n hs = (length hs + n - 1) div n"

definition loader_batch :: "graph_generator \<Rightarrow> nat \<Rightarrow> ('c, 'e) houses \<Rightarrow> nat \<Rightarrow> 'e batch" where
  "loader_batch g n hs i =
     \<lparr>batch_generator = g, batch_nodes = concat (map house_graph (take n (drop (i * n) hs)))\<rparr>"

definition predict :: "('c, 'e) models \<Rightarrow> 'e batch \<Rightarrow> 'e list" where
  "predict m b = map (gnn m b) [0..<length (batch_nodes b)]"

section \<open>The function process\<close>

text \<open>Lines 44 to 49: the choice of the graph generator.\<close>

definition select_graph_generator :: "config_manager \<Rightarrow> bool \<Rightarrow> bool \<Rightarrow> graph_generator" where
  "select_graph_generator conf use_train_graph_generator use_val_graph_generator =
     (if use_train_graph_generator
      then GetGraphGenerator (train_graph_generator (texture_prop conf)) False
      else if use_val_graph_generator
      then GetGraphGenerator (val_graph_generator (texture_prop conf)) False
      else InferenceHGG False)"

text \<open>
  Lines 57 to 62: the loop over the batches of the data loader. The indices still to
  be visited are the argument of the recursion; \<open>grad\<close> is the gradient mode in force.
\<close>

fun batch_loop ::
  "('c, 'e) models \<Rightarrow> string \<Rightarrow> bool \<Rightarrow> graph_generator \<Rightarrow> nat \<Rightarrow> bool \<Rightarrow> nat list \<Rightarrow>
     ('c, 'e) houses \<Rightarrow> ('c, 'e) houses \<times> ('c, 'e) trace" where
  "batch_loop m dev grad g n keep [] hs = (hs, [])"
| "batch_loop m dev grad g n keep (i # is) hs =
     (let b = loader_batch g n hs i;
          output = predict m b;
          hs' = update_embeddings hs b output keep;
          r = batch_loop m dev grad g n keep is hs'
      in (fst r,
          [(Log_batch i (loader_len n hs), hs),
           (Predict dev grad b, hs),
           (Update_embeddings b output keep, hs')] @ snd r))"

definition process ::
  "('c, 'e) models \<Rightarrow> config_manager \<Rightarrow> ('c, 'e) houses \<Rightarrow> string \<Rightarrow> bool \<Rightarrow> bool \<Rightarrow> bool \<Rightarrow>
     (error + unit) \<times> ('c, 'e) houses \<times> ('c, 'e) trace" where
  "process m conf houses ckpt keep_existing_predictions use_train_graph_generator
       use_val_graph_generator =
     (let dev = device (texture_prop conf);
          tr0 = [(Load_conf_eval (texture_synth_conf (texture_gen conf)), houses),
                 (TextureGen_load_checkpoint (checkpoint_path (texture_gen conf)), houses),
                 (TextureProp_load_checkpoint ckpt, houses)]
      in if use_train_graph_generator \<and> use_val_graph_generator
         then (Inl AssertionError, houses, tr0)
         else
           let g = select_graph_generator conf use_train_graph_generator use_val_graph_generator;
               tr1 = tr0 @ [(Select_graph_generator g, houses)]
           in if bs (train (texture_prop conf)) \<le> 0
              then (Inl ValueError, houses, tr1)
              else
                let n = nat (bs (train (texture_prop conf)));
                    hs1 = (if \<not> keep_existing_predictions then clear_predictions houses else houses);
                    tr2 = (if \<not> keep_existing_predictions then [(Clear_predictions, hs1)] else []);
                    r = batch_loop m dev False g n keep_existing_predictions
                          [0..<loader_len n hs1] hs1;
                    hs3 = fill_textures m (fst r) GNN_PROP keep_existing_predictions
                in (Inr (), hs3,
                    tr1 @ tr2 @ snd r @
                    [(Log_synthesizing, fst r),
                     (Fill_textures True GNN_PROP keep_existing_predictions, hs3)]))"


section \<open>Reading a trace\<close>

fun is_predict :: "'e event \<Rightarrow> bool" where
  "is_predict (Predict dev grad b) = True"
| "is_predict ev = False"

fun is_fill :: "'e event \<Rightarrow> bool" where
  "is_fill (Fill_textures lg src skip) = True"
| "is_fill ev = False"

fun is_loop_event :: "'e event \<Rightarrow> bool" where
  "is_loop_event (Log_batch i n) = True"
| "is_loop_event (Predict dev grad b) = True"
| "is_loop_event (Update_embeddings b output keep) = True"
| "is_loop_event ev = False"

fun selection_of :: "'e event \<times> ('c, 'e) houses \<Rightarrow> (graph_generator \<times> ('c, 'e) houses) list" where
  "selection_of (Select_graph_generator g, hs) = [(g, hs)]"
| "selection_of (ev, hs) = []"

definition selections :: "('c, 'e) trace \<Rightarrow> (graph_generator \<times> ('c, 'e) houses) list" where
  "selections tr = concat (map selection_of tr)"

definition loop_events :: "('c, 'e) trace \<Rightarrow> ('c, 'e) trace" where
  "loop_events tr = filter (\<lambda>x. is_loop_event (fst x)) tr"

definition all_cleared :: "('c, 'e) houses \<Rightarrow> bool" where
  "all_cleared hs = list_all (\<lambda>kh. list_all (\<lambda>ks. embedding (snd ks) = None) (snd kh)) hs"

definition result :: "(error + unit) \<times> ('c, 'e) houses \<times> ('c, 'e) trace \<Rightarrow> error + unit" where
  "result r = fst r"

definition final_houses :: "(error + unit) \<times> ('c, 'e) houses \<times> ('c, 'e) trace \<Rightarrow> ('c, 'e) houses" where
  "final_houses r = fst (snd r)"

definition trace_of :: "(error + unit) \<times> ('c, 'e) houses \<times> ('c, 'e) trace \<Rightarrow> ('c, 'e) trace" where
  "trace_of r = snd (snd r)"

definition events :: "(error + unit) \<times> ('c, 'e) houses \<times> ('c, 'e) trace \<Rightarrow> 'e event list" where
  "events r = map fst (snd (snd r))"

text \<open>The keys of a dictionary of houses: what no operation of the script changes.\<close>

definition surface_keys :: "('c, 'e) houses \<Rightarrow> (house_key \<times> surface_key list) list" where
  "surface_keys hs = map (\<lambda>kh. (fst kh, map fst (snd kh))) hs"

section \<open>A small configuration and two houses, for concrete runs\<close>

abbreviation demo_models :: "(nat, nat) models" where
  "demo_models \<equiv> \<lparr>gnn = (\<lambda>b i. 7 + i), synth = (\<lambda>src e. 100 + e)\<rparr>"

abbreviation demo_conf :: "int \<Rightarrow> config_manager" where
  "demo_conf k \<equiv>
     \<lparr>texture_prop = \<lparr>device = ''cpu'', train_graph_generator = ''train_hgg'',
                       val_graph_generator = ''val_hgg'', train = \<lparr>bs = k\<rparr>\<rparr>,
      texture_gen = \<lparr>texture_synth_conf = ''synth.yml'', checkpoint_path = ''tg.ckpt''\<rparr>\<rparr>"

abbreviation demo_houses :: "(nat, nat) houses" where
  "demo_houses \<equiv>
     [(''h1'', [(''floor'', \<lparr>crop = Some 1, embedding = Some 5\<rparr>),
               (''wall'', \<lparr>crop = None, embedding = None\<rparr>)]),
      (''h2'', [(''ceiling'', \<lparr>crop = None, embedding = Some 6\<rparr>)])]"

section \<open>Auxiliary facts\<close>

subsection \<open>Surfaces, pointwise\<close>

lemma map_of_map_values:
  "map_of (map (\<lambda>(k, v). (k, f k v)) xs) k = map_option (f k) (map_of xs k)"
  by (induction xs) auto

lemma surface_at_map_surfaces:
  "surface_at (map_surfaces f hs) hk sk = map_option (f hk sk) (surface_at hs hk sk)"
  unfolding surface_at_def map_surfaces_def
  by (simp add: map_of_map_values split: option.splits)

lemma length_map_surfaces [simp]: "length (map_surfaces f hs) = length hs"
  by (simp add: map_surfaces_def)

lemma surface_at_set_embedding:
  "surface_at (set_embedding keep hs ne) hk sk =
     map_option (\<lambda>s. if (hk, sk) = fst ne \<and> \<not> (keep \<and> embedding s \<noteq> None)
                      then s\<lparr>embedding := Some (snd ne)\<rparr> else s) (surface_at hs hk sk)"
  unfolding set_embedding_def by (rule surface_at_map_surfaces)

lemma foldl_set_embedding_keep:
  "surface_at hs hk sk = Some s \<Longrightarrow> embedding s \<noteq> None \<Longrightarrow>
   surface_at (foldl (set_embedding True) hs nes) hk sk = Some s"
  by (induction nes arbitrary: hs) (simp_all add: surface_at_set_embedding)

lemma foldl_set_embedding_crop:
  "surface_at hs hk sk = Some s \<Longrightarrow>
   \<exists>s'. surface_at (foldl (set_embedding keep) hs nes) hk sk = Some s' \<and> crop s' = crop s"
proof (induction nes arbitrary: hs s)
  case Nil
  then show ?case by simp
next
  case (Cons ne nes)
  let ?s1 = "if (hk, sk) = fst ne \<and> \<not> (keep \<and> embedding s \<noteq> None)
             then s\<lparr>embedding := Some (snd ne)\<rparr> else s"
  have "surface_at (set_embedding keep hs ne) hk sk = Some ?s1"
    using Cons.prems by (simp add: surface_at_set_embedding)
  from Cons.IH [OF this] show ?case by auto
qed

lemma foldl_set_embedding_defined:
  "surface_at hs hk sk = Some s \<Longrightarrow> embedding s \<noteq> None \<Longrightarrow>
   \<exists>s'. surface_at (foldl (set_embedding keep) hs nes) hk sk = Some s' \<and> embedding s' \<noteq> None"
proof (induction nes arbitrary: hs s)
  case Nil
  then show ?case by simp
next
  case (Cons ne nes)
  let ?s1 = "if (hk, sk) = fst ne \<and> \<not> (keep \<and> embedding s \<noteq> None)
             then s\<lparr>embedding := Some (snd ne)\<rparr> else s"
  have a: "surface_at (set_embedding keep hs ne) hk sk = Some ?s1"
    using Cons.prems by (simp add: surface_at_set_embedding)
  have b: "embedding ?s1 \<noteq> None" using Cons.prems by simp
  from Cons.IH [OF a b] show ?case by simp
qed

lemma foldl_set_embedding_covers:
  "surface_at hs hk sk = Some s \<Longrightarrow> (hk, sk) \<in> fst ` set nes \<Longrightarrow>
   \<exists>s'. surface_at (foldl (set_embedding keep) hs nes) hk sk = Some s' \<and> embedding s' \<noteq> None"
proof (induction nes arbitrary: hs s)
  case Nil
  then show ?case by simp
next
  case (Cons ne nes)
  let ?s1 = "if (hk, sk) = fst ne \<and> \<not> (keep \<and> embedding s \<noteq> None)
             then s\<lparr>embedding := Some (snd ne)\<rparr> else s"
  have a: "surface_at (set_embedding keep hs ne) hk sk = Some ?s1"
    using Cons.prems by (simp add: surface_at_set_embedding)
  show ?case
  proof (cases "(hk, sk) = fst ne")
    case True
    then have b: "embedding ?s1 \<noteq> None" by auto
    from foldl_set_embedding_defined [OF a b] show ?thesis by simp
  next
    case False
    with Cons.prems have "(hk, sk) \<in> fst ` set nes" by auto
    from Cons.IH [OF a this] show ?thesis by simp
  qed
qed

subsection \<open>The three ways process ends\<close>

lemma process_abort_flags:
  "t \<and> v \<Longrightarrow> process m conf hs ck keep t v =
     (Inl AssertionError, hs,
      [(Load_conf_eval (texture_synth_conf (texture_gen conf)), hs),
       (TextureGen_load_checkpoint (checkpoint_path (texture_gen conf)), hs),
       (TextureProp_load_checkpoint ck, hs)])"
  by (simp add: process_def)

lemma process_abort_bs:
  "\<not> (t \<and> v) \<Longrightarrow> bs (train (texture_prop conf)) \<le> 0 \<Longrightarrow>
   process m conf hs ck keep t v =
     (Inl ValueError, hs,
      [(Load_conf_eval (texture_synth_conf (texture_gen conf)), hs),
       (TextureGen_load_checkpoint (checkpoint_path (texture_gen conf)), hs),
       (TextureProp_load_checkpoint ck, hs),
       (Select_graph_generator (select_graph_generator conf t v), hs)])"
  by (simp add: process_def Let_def)

lemma process_normal:
  "\<not> (t \<and> v) \<Longrightarrow> 0 < bs (train (texture_prop conf)) \<Longrightarrow>
   process m conf hs ck keep t v =
     (Inr (),
      fill_textures m
        (fst (batch_loop m (device (texture_prop conf)) False (select_graph_generator conf t v)
               (nat (bs (train (texture_prop conf)))) keep
               [0..<loader_len (nat (bs (train (texture_prop conf)))) hs]
               (if keep then hs else clear_predictions hs))) GNN_PROP keep,
      [(Load_conf_eval (texture_synth_conf (texture_gen conf)), hs),
       (TextureGen_load_checkpoint (checkpoint_path (texture_gen conf)), hs),
       (TextureProp_load_checkpoint ck, hs),
       (Select_graph_generator (select_graph_generator conf t v), hs)] @
      (if keep then [] else [(Clear_predictions, clear_predictions hs)]) @
      snd (batch_loop m (device (texture_prop conf)) False (select_graph_generator conf t v)
               (nat (bs (train (texture_prop conf)))) keep
               [0..<loader_len (nat (bs (train (texture_prop conf)))) hs]
               (if keep then hs else clear_predictions hs)) @
      [(Log_synthesizing,
        fst (batch_loop m (device (texture_prop conf)) False (select_graph_generator conf t v)
               (nat (bs (train (texture_prop conf)))) keep
               [0..<loader_len (nat (bs (train (texture_prop conf)))) hs]
               (if keep then hs else clear_predictions hs))),
       (Fill_textures True GNN_PROP keep,
        fill_textures m
        (fst (batch_loop m (device (texture_prop conf)) False (select_graph_generator conf t v)
               (nat (bs (train (texture_prop conf)))) keep
               [0..<loader_len (nat (bs (train (texture_prop conf)))) hs]
               (if keep then hs else clear_predictions hs))) GNN_PROP keep)])"
  by (simp add: process_def Let_def clear_predictions_def loader_len_def)

lemma process_returns_iff:
  "result (process m conf hs ck keep t v) = Inr () \<longleftrightarrow>
     \<not> (t \<and> v) \<and> 0 < bs (train (texture_prop conf))"
  by (simp add: process_def Let_def result_def)

subsection \<open>The trace of the batch loop\<close>

lemma batch_loop_selections: "selections (snd (batch_loop m dev grad g n keep is hs)) = []"
  by (induction "is" arbitrary: hs) (simp_all add: selections_def Let_def)

lemma batch_loop_no_fill: "filter is_fill (map fst (snd (batch_loop m dev grad g n keep is hs))) = []"
  by (induction "is" arbitrary: hs) (simp_all add: Let_def)

lemma batch_loop_all_loop_events:
  "loop_events (snd (batch_loop m dev grad g n keep is hs)) = snd (batch_loop m dev grad g n keep is hs)"
  by (induction "is" arbitrary: hs) (simp_all add: Let_def loop_events_def)

lemma batch_loop_length:
  "length (snd (batch_loop m dev grad g n keep is hs)) = 3 * length is"
  by (induction "is" arbitrary: hs) (simp_all add: Let_def)

lemma length_foldl_set_embedding: "length (foldl (set_embedding keep) hs nes) = length hs"
  by (induction nes arbitrary: hs) (simp_all add: set_embedding_def)

lemma length_update_embeddings [simp]: "length (update_embeddings hs b out keep) = length hs"
  by (simp add: update_embeddings_def length_foldl_set_embedding)

lemma loader_len_update [simp]:
  "loader_len n (update_embeddings hs b out keep) = loader_len n hs"
  by (simp add: loader_len_def)

lemma batch_loop_step:
  "k < length is \<Longrightarrow>
   \<exists>hs'. length hs' = length hs \<and>
     snd (batch_loop m dev grad g n keep is hs) ! (3 * k) = (Log_batch (is ! k) (loader_len n hs), hs') \<and>
     snd (batch_loop m dev grad g n keep is hs) ! (3 * k + 1) =
       (Predict dev grad (loader_batch g n hs' (is ! k)), hs') \<and>
     snd (batch_loop m dev grad g n keep is hs) ! (3 * k + 2) =
       (Update_embeddings (loader_batch g n hs' (is ! k))
          (predict m (loader_batch g n hs' (is ! k))) keep,
        update_embeddings hs' (loader_batch g n hs' (is ! k))
          (predict m (loader_batch g n hs' (is ! k))) keep)"
proof (induction "is" arbitrary: hs k)
  case Nil
  then show ?case by simp
next
  case (Cons i "is")
  show ?case
  proof (cases k)
    case 0
    then show ?thesis by (simp add: Let_def)
  next
    case (Suc k')
    let ?b = "loader_batch g n hs i"
    let ?hs1 = "update_embeddings hs ?b (predict m ?b) keep"
    from Suc Cons.prems have "k' < length is" by simp
    from Cons.IH [OF this, of ?hs1] obtain hs' where
      h: "length hs' = length ?hs1"
        "snd (batch_loop m dev grad g n keep is ?hs1) ! (3 * k') = (Log_batch (is ! k') (loader_len n ?hs1), hs')"
        "snd (batch_loop m dev grad g n keep is ?hs1) ! (3 * k' + 1) =
           (Predict dev grad (loader_batch g n hs' (is ! k')), hs')"
        "snd (batch_loop m dev grad g n keep is ?hs1) ! (3 * k' + 2) =
           (Update_embeddings (loader_batch g n hs' (is ! k'))
              (predict m (loader_batch g n hs' (is ! k'))) keep,
            update_embeddings hs' (loader_batch g n hs' (is ! k'))
              (predict m (loader_batch g n hs' (is ! k'))) keep)"
      by blast
    have e0: "3 * k = Suc (Suc (Suc (3 * k')))" using Suc by simp
    have e1: "3 * k + 1 = Suc (Suc (Suc (3 * k' + 1)))" using Suc by simp
    have e2: "3 * k + 2 = Suc (Suc (Suc (3 * k' + 2)))" using Suc by simp
    have n: "(i # is) ! k = is ! k'" using Suc by simp
    show ?thesis
      apply (rule exI [of _ hs'])
      unfolding n e0 e1 e2
      using h by (simp add: Let_def)
  qed
qed

lemma batch_loop_predicts:
  "length (filter (is_predict \<circ> fst) (snd (batch_loop m dev grad g n keep is hs))) = length is"
  by (induction "is" arbitrary: hs) (simp_all add: Let_def)

lemma batch_loop_fills:
  "filter (is_fill \<circ> fst) (snd (batch_loop m dev grad g n keep is hs)) = []"
  by (induction "is" arbitrary: hs) (simp_all add: Let_def)

lemma length_batch_loop [simp]: "length (fst (batch_loop m dev grad g n keep is hs)) = length hs"
  by (induction "is" arbitrary: hs) (simp_all add: Let_def)

lemma selections_process:
  fixes houses :: "('c, 'e) houses"
  assumes "\<not> (t \<and> v)"
  shows "selections (trace_of (process m conf houses ck keep t v)) =
     [(select_graph_generator conf t v, houses)]"
proof (cases "0 < bs (train (texture_prop conf))")
  case True
  have "concat (map selection_of (snd (batch_loop m dev grad g n keep is hs))) = []"
    for dev grad g n "is" and hs :: "('c, 'e) houses"
    using batch_loop_selections [of m dev grad g n keep "is" hs] by (simp only: selections_def)
  then show ?thesis
    by (simp add: process_normal [OF assms True] trace_of_def selections_def)
next
  case False
  then show ?thesis
    by (simp add: process_abort_bs [OF assms] trace_of_def selections_def)
qed

lemma loader_len_clear [simp]: "loader_len n (clear_predictions hs) = loader_len n hs"
  by (simp add: loader_len_def clear_predictions_def)

lemma loop_events_process:
  fixes houses :: "('c, 'e) houses"
  assumes f: "\<not> (t \<and> v)" and b: "0 < bs (train (texture_prop conf))"
  shows "loop_events (trace_of (process m conf houses ck keep t v)) =
     snd (batch_loop m (device (texture_prop conf)) False (select_graph_generator conf t v)
            (nat (bs (train (texture_prop conf)))) keep
            [0..<loader_len (nat (bs (train (texture_prop conf)))) houses]
            (if keep then houses else clear_predictions houses))"
proof -
  have "filter (\<lambda>x. is_loop_event (fst x)) (snd (batch_loop m dev grad g n keep is hs)) =
          snd (batch_loop m dev grad g n keep is hs)"
    for dev grad g n "is" and hs :: "('c, 'e) houses"
    using batch_loop_all_loop_events [of m dev grad g n keep "is" hs]
    by (simp only: loop_events_def)
  then show ?thesis
    by (simp add: process_normal [OF f b] trace_of_def loop_events_def)
qed

lemma all_cleared_clear_predictions: "all_cleared (clear_predictions hs)"
  by (simp add: all_cleared_def clear_predictions_def map_surfaces_def list_all_iff split_def)

lemma batch_loop_first:
  "0 < N \<Longrightarrow>
   snd (batch_loop m dev grad g n keep [0..<N] hs) ! 1 = (Predict dev grad (loader_batch g n hs 0), hs)"
  by (simp add: upt_conv_Cons Let_def)

subsection \<open>What the loop and the synthesis do to one surface\<close>

lemma update_embeddings_keep:
  "surface_at hs hk sk = Some s \<Longrightarrow> embedding s \<noteq> None \<Longrightarrow>
   surface_at (update_embeddings hs b out True) hk sk = Some s"
  unfolding update_embeddings_def by (rule foldl_set_embedding_keep)

lemma batch_loop_keep:
  "surface_at hs hk sk = Some s \<Longrightarrow> embedding s \<noteq> None \<Longrightarrow>
   surface_at (fst (batch_loop m dev grad g n True is hs)) hk sk = Some s"
proof (induction "is" arbitrary: hs)
  case Nil
  then show ?case by simp
next
  case (Cons i "is")
  let ?b = "loader_batch g n hs i"
  from update_embeddings_keep [OF Cons.prems, of ?b "predict m ?b"]
  have "surface_at (update_embeddings hs ?b (predict m ?b) True) hk sk = Some s" .
  from Cons.IH [OF this Cons.prems(2)] show ?case by (simp add: Let_def)
qed

lemma surface_at_fill_textures:
  "surface_at (fill_textures m hs src skip) hk sk =
     map_option (\<lambda>s. case embedding s of
         None \<Rightarrow> s
       | Some e \<Rightarrow> if skip \<and> crop s \<noteq> None then s else s\<lparr>crop := Some (synth m src e)\<rparr>)
       (surface_at hs hk sk)"
  unfolding fill_textures_def by (rule surface_at_map_surfaces)

lemma fill_textures_embedding:
  "surface_at hs hk sk = Some s \<Longrightarrow>
   \<exists>s'. surface_at (fill_textures m hs src skip) hk sk = Some s' \<and> embedding s' = embedding s"
  by (simp add: surface_at_fill_textures split: option.splits)

lemma fill_textures_crop:
  "surface_at hs hk sk = Some s \<Longrightarrow> embedding s \<noteq> None \<Longrightarrow>
   \<exists>s'. surface_at (fill_textures m hs src False) hk sk = Some s'
        \<and> embedding s' \<noteq> None \<and> crop s' \<noteq> None"
  by (auto simp add: surface_at_fill_textures split: option.splits)

lemma surface_at_clear_predictions:
  "surface_at (clear_predictions hs) hk sk =
     map_option (\<lambda>s. s\<lparr>embedding := None\<rparr>) (surface_at hs hk sk)"
  unfolding clear_predictions_def by (rule surface_at_map_surfaces)

subsection \<open>Every surface is a node of some batch\<close>

lemma surface_keys_map_surfaces [simp]: "surface_keys (map_surfaces f hs) = surface_keys hs"
  by (simp add: surface_keys_def map_surfaces_def split_def comp_def)

lemma surface_keys_foldl [simp]:
  "surface_keys (foldl (set_embedding keep) hs nes) = surface_keys hs"
  by (induction nes arbitrary: hs) (simp_all add: set_embedding_def)

lemma surface_keys_update [simp]:
  "surface_keys (update_embeddings hs b out keep) = surface_keys hs"
  by (simp add: update_embeddings_def)

lemma node_keys:
  "map fst (batch_nodes (loader_batch g n hs i)) =
     concat (map (\<lambda>ks. map (Pair (fst ks)) (snd ks)) (take n (drop (i * n) (surface_keys hs))))"
  by (simp add: loader_batch_def house_graph_def surface_keys_def map_concat take_map drop_map
      comp_def split_def)

lemma node_keys_cong:
  "surface_keys hs = surface_keys hs' \<Longrightarrow>
   map fst (batch_nodes (loader_batch g n hs i)) = map fst (batch_nodes (loader_batch g n hs' i))"
  by (simp add: node_keys)

lemma update_embeddings_covers:
  assumes "surface_at hs hk sk = Some s" and "(hk, sk) \<in> set (map fst (batch_nodes b))"
  shows "\<exists>s'. surface_at (update_embeddings hs b (predict m b) keep) hk sk = Some s'
              \<and> embedding s' \<noteq> None"
proof -
  have "map fst (zip (map fst (batch_nodes b)) (predict m b)) = map fst (batch_nodes b)"
    by (simp add: predict_def)
  then have "fst ` set (zip (map fst (batch_nodes b)) (predict m b)) = set (map fst (batch_nodes b))"
    by (metis set_map)
  with assms(2) have "(hk, sk) \<in> fst ` set (zip (map fst (batch_nodes b)) (predict m b))"
    by simp
  from foldl_set_embedding_covers [OF assms(1) this] show ?thesis
    by (simp add: update_embeddings_def)
qed

lemma update_embeddings_defined:
  "surface_at hs hk sk = Some s \<Longrightarrow> embedding s \<noteq> None \<Longrightarrow>
   \<exists>s'. surface_at (update_embeddings hs b out keep) hk sk = Some s' \<and> embedding s' \<noteq> None"
  unfolding update_embeddings_def by (rule foldl_set_embedding_defined)

lemma update_embeddings_exists:
  "surface_at hs hk sk = Some s \<Longrightarrow>
   \<exists>s'. surface_at (update_embeddings hs b out keep) hk sk = Some s' \<and> crop s' = crop s"
  unfolding update_embeddings_def by (rule foldl_set_embedding_crop)

lemma batch_loop_defined:
  "surface_at hs hk sk = Some s \<Longrightarrow> embedding s \<noteq> None \<Longrightarrow>
   \<exists>s'. surface_at (fst (batch_loop m dev grad g n keep is hs)) hk sk = Some s'
        \<and> embedding s' \<noteq> None"
proof (induction "is" arbitrary: hs s)
  case Nil
  then show ?case by simp
next
  case (Cons i "is")
  let ?b = "loader_batch g n hs i"
  from update_embeddings_defined [OF Cons.prems, of ?b "predict m ?b" keep]
  obtain s1 where "surface_at (update_embeddings hs ?b (predict m ?b) keep) hk sk = Some s1"
    and "embedding s1 \<noteq> None" by blast
  from Cons.IH [OF this] show ?case by (simp add: Let_def)
qed

lemma batch_loop_covers:
  "surface_at hs hk sk = Some s \<Longrightarrow> i \<in> set is \<Longrightarrow>
   (hk, sk) \<in> set (map fst (batch_nodes (loader_batch g n hs i))) \<Longrightarrow>
   \<exists>s'. surface_at (fst (batch_loop m dev grad g n keep is hs)) hk sk = Some s'
        \<and> embedding s' \<noteq> None"
proof (induction "is" arbitrary: hs s)
  case Nil
  then show ?case by simp
next
  case (Cons j "is")
  let ?b = "loader_batch g n hs j"
  let ?hs1 = "update_embeddings hs ?b (predict m ?b) keep"
  show ?case
  proof (cases "i = j")
    case True
    with Cons.prems have "(hk, sk) \<in> set (map fst (batch_nodes ?b))" by simp
    from update_embeddings_covers [OF Cons.prems(1) this, of m keep]
    obtain s1 where "surface_at ?hs1 hk sk = Some s1" and "embedding s1 \<noteq> None" by blast
    from batch_loop_defined [OF this, of m dev grad g n keep "is"]
    show ?thesis by (simp add: Let_def)
  next
    case False
    with Cons.prems have mem: "i \<in> set is" by simp
    from update_embeddings_exists [OF Cons.prems(1), of ?b "predict m ?b" keep]
    obtain s1 where s1: "surface_at ?hs1 hk sk = Some s1" by blast
    have "map fst (batch_nodes (loader_batch g n ?hs1 i)) = map fst (batch_nodes (loader_batch g n hs i))"
      by (rule node_keys_cong) simp
    with Cons.prems(3)
    have "(hk, sk) \<in> set (map fst (batch_nodes (loader_batch g n ?hs1 i)))" by simp
    from Cons.IH [OF s1 mem this] show ?thesis by (simp add: Let_def)
  qed
qed

lemma nth_in_chunk:
  assumes "p < length xs" and "0 < (n::nat)"
  shows "xs ! p \<in> set (take n (drop ((p div n) * n) xs))"
proof -
  let ?k = "(p div n) * n"
  let ?j = "p mod n"
  have kj: "?k + ?j = p" by simp
  have k: "?k \<le> p" by simp
  have j: "?j < n" using assms(2) by simp
  have jl: "?j < length xs - ?k" using assms(1) kj by linarith
  have len: "?j < length (take n (drop ?k xs))" using j jl by simp
  have "take n (drop ?k xs) ! ?j = drop ?k xs ! ?j" using j by simp
  also have "\<dots> = xs ! (?k + ?j)"
  proof (rule nth_drop)
    from k assms(1) show "?k \<le> length xs" by linarith
  qed
  also have "\<dots> = xs ! p" by (simp only: kj)
  finally have "take n (drop ?k xs) ! ?j = xs ! p" .
  with len show ?thesis by (metis nth_mem)
qed

lemma chunk_index_bound:
  assumes "p < length xs" and "0 < (n::nat)"
  shows "p div n < (length xs + n - 1) div n"
proof -
  have "p div n \<le> (length xs - 1) div n"
    using assms(1) by (intro div_le_mono) simp
  also have "(length xs - 1) div n < Suc ((length xs - 1) div n)" by simp
  also have "Suc ((length xs - 1) div n) = (length xs - 1 + n) div n"
    using assms(2) div_add_self2 [of n "length xs - 1"] by simp
  also have "length xs - 1 + n = length xs + n - 1"
    using assms(1) by simp
  finally show ?thesis .
qed

lemma surface_in_some_batch:
  assumes "surface_at hs hk sk = Some s" and "0 < n"
  shows "\<exists>i < loader_len n hs. (hk, sk) \<in> set (map fst (batch_nodes (loader_batch g n hs i)))"
proof -
  from assms(1) obtain h where h: "map_of hs hk = Some h" and s: "map_of h sk = Some s"
    by (auto simp: surface_at_def split: option.splits)
  from h have "(hk, h) \<in> set hs" by (rule map_of_SomeD)
  then obtain p where p: "p < length hs" and hp: "hs ! p = (hk, h)"
    by (auto simp: in_set_conv_nth)
  from s have sh: "(sk, s) \<in> set h" by (rule map_of_SomeD)
  have "((hk, sk), embedding s) \<in> set (house_graph (hk, h))"
    using sh by (force simp: house_graph_def)
  moreover have "(hk, h) \<in> set (take n (drop ((p div n) * n) hs))"
    using nth_in_chunk [OF p assms(2)] hp by simp
  ultimately have "((hk, sk), embedding s) \<in> set (batch_nodes (loader_batch g n hs (p div n)))"
    by (auto simp: loader_batch_def)
  then have "(hk, sk) \<in> set (map fst (batch_nodes (loader_batch g n hs (p div n))))"
    by force
  moreover have "p div n < loader_len n hs"
    unfolding loader_len_def by (rule chunk_index_bound [OF p assms(2)])
  ultimately show ?thesis by blast
qed

subsection \<open>Embeddings that are kept\<close>

lemma process_keeps_embedding:
  assumes "keep" and "surface_at houses hk sk = Some s" and "embedding s \<noteq> None"
  shows "\<exists>s'. surface_at (final_houses (process m conf houses ck keep t v)) hk sk = Some s'
              \<and> embedding s' = embedding s"
proof (cases "result (process m conf houses ck keep t v) = Inr ()")
  case True
  then have f: "\<not> (t \<and> v)" and b: "0 < bs (train (texture_prop conf))"
    by (simp_all add: process_returns_iff)
  let ?n = "nat (bs (train (texture_prop conf)))"
  let ?r = "batch_loop m (device (texture_prop conf)) False (select_graph_generator conf t v)
              ?n True [0..<loader_len ?n houses] houses"
  have fin: "final_houses (process m conf houses ck keep t v) = fill_textures m (fst ?r) GNN_PROP True"
    using assms(1) by (simp add: process_normal [OF f b] final_houses_def)
  have "surface_at (fst ?r) hk sk = Some s"
    by (rule batch_loop_keep [OF assms(2,3)])
  from fill_textures_embedding [OF this] show ?thesis
    unfolding fin .
next
  case False
  have "final_houses (process m conf houses ck keep t v) = houses"
  proof (cases "t \<and> v")
    case True
    then show ?thesis by (simp add: process_abort_flags final_houses_def)
  next
    case f: False
    with False have "bs (train (texture_prop conf)) \<le> 0"
      by (simp add: process_returns_iff)
    then show ?thesis by (simp add: process_abort_bs [OF f] final_houses_def)
  qed
  with assms(2) show ?thesis by simp
qed

subsection \<open>The states of the batch loop\<close>

lemma batch_loop_states:
  "\<exists>sts. length sts = Suc (length is)
     \<and> sts ! 0 = hs
     \<and> fst (batch_loop m dev grad g n keep is hs) = sts ! length is
     \<and> (\<forall>k < length is.
          length (sts ! k) = length hs
        \<and> sts ! Suc k =
            update_embeddings (sts ! k) (loader_batch g n (sts ! k) (is ! k))
              (predict m (loader_batch g n (sts ! k) (is ! k))) keep
        \<and> snd (batch_loop m dev grad g n keep is hs) ! (3 * k) =
            (Log_batch (is ! k) (loader_len n hs), sts ! k)
        \<and> snd (batch_loop m dev grad g n keep is hs) ! (3 * k + 1) =
            (Predict dev grad (loader_batch g n (sts ! k) (is ! k)), sts ! k)
        \<and> snd (batch_loop m dev grad g n keep is hs) ! (3 * k + 2) =
            (Update_embeddings (loader_batch g n (sts ! k) (is ! k))
               (predict m (loader_batch g n (sts ! k) (is ! k))) keep,
             sts ! Suc k))"
proof (induction "is" arbitrary: hs)
  case Nil
  show ?case by (rule exI [of _ "[hs]"]) simp
next
  case (Cons i "is")
  let ?b = "loader_batch g n hs i"
  let ?hs1 = "update_embeddings hs ?b (predict m ?b) keep"
  let ?tr1 = "snd (batch_loop m dev grad g n keep is ?hs1)"
  let ?tr = "snd (batch_loop m dev grad g n keep (i # is) hs)"
  from Cons.IH [of ?hs1] obtain sts where
    len: "length sts = Suc (length is)"
    and st0: "sts ! 0 = ?hs1"
    and fin: "fst (batch_loop m dev grad g n keep is ?hs1) = sts ! length is"
    and step: "\<forall>k < length is.
          length (sts ! k) = length ?hs1
        \<and> sts ! Suc k =
            update_embeddings (sts ! k) (loader_batch g n (sts ! k) (is ! k))
              (predict m (loader_batch g n (sts ! k) (is ! k))) keep
        \<and> ?tr1 ! (3 * k) = (Log_batch (is ! k) (loader_len n ?hs1), sts ! k)
        \<and> ?tr1 ! (3 * k + 1) = (Predict dev grad (loader_batch g n (sts ! k) (is ! k)), sts ! k)
        \<and> ?tr1 ! (3 * k + 2) =
            (Update_embeddings (loader_batch g n (sts ! k) (is ! k))
               (predict m (loader_batch g n (sts ! k) (is ! k))) keep,
             sts ! Suc k)"
    by blast
  have tr: "?tr = (Log_batch i (loader_len n hs), hs) # (Predict dev grad ?b, hs) #
                  (Update_embeddings ?b (predict m ?b) keep, ?hs1) # ?tr1"
    by (simp add: Let_def)
  let ?sts = "hs # sts"
  have a: "length ?sts = Suc (length (i # is))" using len by simp
  have b: "?sts ! 0 = hs" by simp
  have c: "fst (batch_loop m dev grad g n keep (i # is) hs) = ?sts ! length (i # is)"
    using fin by (simp add: Let_def)
  have d: "length (?sts ! k) = length hs
        \<and> ?sts ! Suc k =
            update_embeddings (?sts ! k) (loader_batch g n (?sts ! k) ((i # is) ! k))
              (predict m (loader_batch g n (?sts ! k) ((i # is) ! k))) keep
        \<and> ?tr ! (3 * k) = (Log_batch ((i # is) ! k) (loader_len n hs), ?sts ! k)
        \<and> ?tr ! (3 * k + 1) =
            (Predict dev grad (loader_batch g n (?sts ! k) ((i # is) ! k)), ?sts ! k)
        \<and> ?tr ! (3 * k + 2) =
            (Update_embeddings (loader_batch g n (?sts ! k) ((i # is) ! k))
               (predict m (loader_batch g n (?sts ! k) ((i # is) ! k))) keep,
             ?sts ! Suc k)"
    if k: "k < length (i # is)" for k
  proof (cases k)
    case 0
    then show ?thesis unfolding tr using st0 by simp
  next
    case (Suc k')
    with k have k': "k' < length is" by simp
    have e0: "3 * k = Suc (Suc (Suc (3 * k')))" using Suc by simp
    have e1: "3 * k + 1 = Suc (Suc (Suc (3 * k' + 1)))" using Suc by simp
    have e2: "3 * k + 2 = Suc (Suc (Suc (3 * k' + 2)))" using Suc by simp
    from step k' have s: "length (sts ! k') = length ?hs1"
        "sts ! Suc k' =
            update_embeddings (sts ! k') (loader_batch g n (sts ! k') (is ! k'))
              (predict m (loader_batch g n (sts ! k') (is ! k'))) keep"
        "?tr1 ! (3 * k') = (Log_batch (is ! k') (loader_len n ?hs1), sts ! k')"
        "?tr1 ! (3 * k' + 1) = (Predict dev grad (loader_batch g n (sts ! k') (is ! k')), sts ! k')"
        "?tr1 ! (3 * k' + 2) =
            (Update_embeddings (loader_batch g n (sts ! k') (is ! k'))
               (predict m (loader_batch g n (sts ! k') (is ! k'))) keep,
             sts ! Suc k')"
      by blast+
    show ?thesis
      unfolding tr e0 e1 e2 Suc using s by simp
  qed
  show ?case
    apply (rule exI [of _ ?sts])
    using a b c d by blast
qed

lemma batch_loop_last:
  "is \<noteq> [] \<Longrightarrow>
   snd (last (snd (batch_loop m dev grad g n keep is hs))) = fst (batch_loop m dev grad g n keep is hs)"
proof (induction "is" arbitrary: hs)
  case Nil
  then show ?case by simp
next
  case (Cons i "is")
  show ?case
  proof (cases "is = []")
    case True
    then show ?thesis by (simp add: Let_def)
  next
    case False
    let ?b = "loader_batch g n hs i"
    let ?hs1 = "update_embeddings hs ?b (predict m ?b) keep"
    have ne: "snd (batch_loop m dev grad g n keep is ?hs1) \<noteq> []"
      using False batch_loop_length [of m dev grad g n keep "is" ?hs1] by (cases "is") auto
    from Cons.IH [OF False, of ?hs1] ne show ?thesis by (simp add: Let_def)
  qed
qed

lemma surface_keys_batch_loop [simp]:
  "surface_keys (fst (batch_loop m dev grad g n keep is hs)) = surface_keys hs"
  by (induction "is" arbitrary: hs) (simp_all add: Let_def)

lemma surface_keys_clear [simp]: "surface_keys (clear_predictions hs) = surface_keys hs"
  by (simp add: clear_predictions_def)

lemma process_normal_shape:
  fixes houses :: "('c, 'e) houses"
  assumes "result (process m conf houses ck keep t v) = Inr ()"
  shows "\<exists>pre hs2.
       trace_of (process m conf houses ck keep t v) =
         pre @ [(Log_synthesizing, hs2),
                (Fill_textures True GNN_PROP keep, fill_textures m hs2 GNN_PROP keep)]
     \<and> pre \<noteq> [] \<and> hs2 = snd (last pre)
     \<and> hs2 = fst (batch_loop m (device (texture_prop conf)) False (select_graph_generator conf t v)
                    (nat (bs (train (texture_prop conf)))) keep
                    [0..<loader_len (nat (bs (train (texture_prop conf)))) houses]
                    (if keep then houses else clear_predictions houses))
     \<and> filter is_fill (map fst pre) = []
     \<and> loop_events pre = loop_events (trace_of (process m conf houses ck keep t v))
     \<and> length (filter is_predict (map fst pre)) =
         loader_len (nat (bs (train (texture_prop conf)))) houses
     \<and> surface_keys hs2 = surface_keys houses
     \<and> final_houses (process m conf houses ck keep t v) = fill_textures m hs2 GNN_PROP keep"
proof -
  from assms have f: "\<not> (t \<and> v)" and b: "0 < bs (train (texture_prop conf))"
    by (simp_all add: process_returns_iff)
  let ?n = "nat (bs (train (texture_prop conf)))"
  let ?N = "loader_len ?n houses"
  let ?hs1 = "if keep then houses else clear_predictions houses"
  let ?r = "batch_loop m (device (texture_prop conf)) False (select_graph_generator conf t v)
              ?n keep [0..<?N] ?hs1"
  let ?head = "[(Load_conf_eval (texture_synth_conf (texture_gen conf)), houses),
       (TextureGen_load_checkpoint (checkpoint_path (texture_gen conf)), houses),
       (TextureProp_load_checkpoint ck, houses),
       (Select_graph_generator (select_graph_generator conf t v), houses)] @
      (if keep then [] else [(Clear_predictions, clear_predictions houses)])"
  let ?pre = "?head @ snd ?r"
  let ?tr = "trace_of (process m conf houses ck keep t v)"
  have 1: "?tr = ?pre @ [(Log_synthesizing, fst ?r),
                (Fill_textures True GNN_PROP keep, fill_textures m (fst ?r) GNN_PROP keep)]"
    by (simp add: process_normal [OF f b] trace_of_def)
  have 2: "?pre \<noteq> []" by simp
  have hl: "snd (last ?head) = ?hs1" by simp
  have 3: "fst ?r = snd (last ?pre)"
  proof (cases "?N = 0")
    case True
    then have "snd ?r = []" and "fst ?r = ?hs1" by simp_all
    with hl show ?thesis by simp
  next
    case False
    then have ne: "[0..<?N] \<noteq> []" by simp
    then have "snd ?r \<noteq> []"
      using batch_loop_length [of m "device (texture_prop conf)" False
              "select_graph_generator conf t v" ?n keep "[0..<?N]" ?hs1] by auto
    then have "last ?pre = last (snd ?r)" by simp
    with batch_loop_last [OF ne, of m "device (texture_prop conf)" False
              "select_graph_generator conf t v" ?n keep ?hs1]
    show ?thesis by simp
  qed
  have 4: "filter is_fill (map fst ?pre) = []"
    by (simp add: batch_loop_fills batch_loop_no_fill)
  have le: "loop_events (snd ?r) = snd ?r" by (rule batch_loop_all_loop_events)
  have 5: "loop_events ?pre = loop_events ?tr"
    unfolding 1 using le by (simp add: loop_events_def)
  have 6: "length (filter is_predict (map fst ?pre)) = ?N"
    by (simp add: batch_loop_predicts)
  have 7: "surface_keys (fst ?r) = surface_keys houses" by simp
  have 8: "final_houses (process m conf houses ck keep t v) = fill_textures m (fst ?r) GNN_PROP keep"
    by (simp add: process_normal [OF f b] final_houses_def)
  have 9: "fst ?r = fst ?r" ..
  show ?thesis
    using 1 2 3 9 4 5 6 7 8 by (intro exI [of _ ?pre] exI [of _ "fst ?r"] conjI)
qed

section \<open>Properties of process\<close>

subsection \<open>The flag assertion\<close>

text \<open>
  Claim C3. A call with both \<^verbatim>\<open>use_train_graph_generator\<close> and
  \<^verbatim>\<open>use_val_graph_generator\<close> set ends in the assertion failure of line 41. No
  prediction of the propagation network has been made by then, and the houses are as
  they were passed in.
\<close>

theorem both_generators_abort:
  assumes "use_train_graph_generator" and "use_val_graph_generator"
  shows "result (process m conf houses ck keep use_train_graph_generator use_val_graph_generator)
           = Inl AssertionError
         \<and> filter is_predict
             (events (process m conf houses ck keep use_train_graph_generator use_val_graph_generator)) = []
         \<and> final_houses (process m conf houses ck keep use_train_graph_generator use_val_graph_generator)
             = houses"
  using assms by (simp add: process_abort_flags result_def events_def final_houses_def)

theorem both_generators_abort_witness:
  "result (process demo_models (demo_conf 1) demo_houses ''gnn.ckpt'' False True True)
     = Inl AssertionError
   \<and> filter is_predict
       (events (process demo_models (demo_conf 1) demo_houses ''gnn.ckpt'' False True True)) = []
   \<and> final_houses (process demo_models (demo_conf 1) demo_houses ''gnn.ckpt'' False True True)
       = demo_houses"
  by (rule both_generators_abort [OF TrueI TrueI])

text \<open>
  Claim C10. Every call starts by loading the evaluation configuration and the two
  checkpoints, whatever the flags are: the checkpoint of the synthesis predictor, then
  the checkpoint of the propagation predictor. When both graph generator flags are set,
  these loads are all that the call does before it ends in the assertion failure.
\<close>

theorem checkpoints_loaded_first:
  "take 3 (events (process m conf houses ck keep t v)) =
     [Load_conf_eval (texture_synth_conf (texture_gen conf)),
      TextureGen_load_checkpoint (checkpoint_path (texture_gen conf)),
      TextureProp_load_checkpoint ck]
   \<and> (t \<and> v \<longrightarrow>
        events (process m conf houses ck keep t v) =
          [Load_conf_eval (texture_synth_conf (texture_gen conf)),
           TextureGen_load_checkpoint (checkpoint_path (texture_gen conf)),
           TextureProp_load_checkpoint ck]
        \<and> result (process m conf houses ck keep t v) = Inl AssertionError)"
  by (simp add: process_def Let_def events_def result_def)

theorem checkpoints_loaded_first_witness:
  "events (process demo_models (demo_conf 1) demo_houses ''gnn.ckpt'' True True True) =
     [Load_conf_eval ''synth.yml'', TextureGen_load_checkpoint ''tg.ckpt'',
      TextureProp_load_checkpoint ''gnn.ckpt'']
   \<and> result (process demo_models (demo_conf 1) demo_houses ''gnn.ckpt'' True True True)
       = Inl AssertionError"
  using checkpoints_loaded_first [of demo_models "demo_conf 1" demo_houses "''gnn.ckpt''" True True True]
  by simp

subsection \<open>The choice of the graph generator\<close>

text \<open>
  Claim C5. The choice of the graph generator depends on the two flags only: the
  generator of training time if \<^verbatim>\<open>use_train_graph_generator\<close> is set, otherwise the
  generator of validation time if \<^verbatim>\<open>use_val_graph_generator\<close> is set, and
  \<^verbatim>\<open>InferenceHGG\<close> if neither is. A call that passes the flag assertion makes this
  choice exactly once, and the houses are untouched when it is made.
\<close>

theorem generator_selection:
  "(use_train_graph_generator \<longrightarrow>
      select_graph_generator conf use_train_graph_generator use_val_graph_generator =
        GetGraphGenerator (train_graph_generator (texture_prop conf)) False)
   \<and> (\<not> use_train_graph_generator \<and> use_val_graph_generator \<longrightarrow>
      select_graph_generator conf use_train_graph_generator use_val_graph_generator =
        GetGraphGenerator (val_graph_generator (texture_prop conf)) False)
   \<and> (\<not> use_train_graph_generator \<and> \<not> use_val_graph_generator \<longrightarrow>
      select_graph_generator conf use_train_graph_generator use_val_graph_generator =
        InferenceHGG False)
   \<and> (\<not> (use_train_graph_generator \<and> use_val_graph_generator) \<longrightarrow>
      selections (trace_of (process m conf houses ck keep use_train_graph_generator
                              use_val_graph_generator)) =
        [(select_graph_generator conf use_train_graph_generator use_val_graph_generator, houses)])"
proof -
  have a: "\<not> (use_train_graph_generator \<and> use_val_graph_generator) \<longrightarrow>
      selections (trace_of (process m conf houses ck keep use_train_graph_generator
                              use_val_graph_generator)) =
        [(select_graph_generator conf use_train_graph_generator use_val_graph_generator, houses)]"
    using selections_process [of use_train_graph_generator use_val_graph_generator m conf houses ck keep]
    by blast
  have b: "use_train_graph_generator \<longrightarrow>
      select_graph_generator conf use_train_graph_generator use_val_graph_generator =
        GetGraphGenerator (train_graph_generator (texture_prop conf)) False"
    by (simp add: select_graph_generator_def)
  have c: "\<not> use_train_graph_generator \<and> use_val_graph_generator \<longrightarrow>
      select_graph_generator conf use_train_graph_generator use_val_graph_generator =
        GetGraphGenerator (val_graph_generator (texture_prop conf)) False"
    by (simp add: select_graph_generator_def)
  have d: "\<not> use_train_graph_generator \<and> \<not> use_val_graph_generator \<longrightarrow>
      select_graph_generator conf use_train_graph_generator use_val_graph_generator =
        InferenceHGG False"
    by (simp add: select_graph_generator_def)
  from a b c d show ?thesis by (intro conjI)
qed

theorem generator_selection_witness:
  "select_graph_generator (demo_conf 1) True False = GetGraphGenerator ''train_hgg'' False
   \<and> select_graph_generator (demo_conf 1) False True = GetGraphGenerator ''val_hgg'' False
   \<and> select_graph_generator (demo_conf 1) False False = InferenceHGG False
   \<and> selections (trace_of (process demo_models (demo_conf 1) demo_houses ''gnn.ckpt'' False False True))
       = [(GetGraphGenerator ''val_hgg'' False, demo_houses)]"
proof -
  note a = generator_selection [of True "demo_conf 1" False demo_models demo_houses "''gnn.ckpt''" False]
  note b = generator_selection [of False "demo_conf 1" True demo_models demo_houses "''gnn.ckpt''" False]
  note c = generator_selection [of False "demo_conf 1" False demo_models demo_houses "''gnn.ckpt''" False]
  from a have 1: "select_graph_generator (demo_conf 1) True False = GetGraphGenerator ''train_hgg'' False"
    by simp
  from b have 2: "select_graph_generator (demo_conf 1) False True = GetGraphGenerator ''val_hgg'' False"
    by simp
  from c have 3: "select_graph_generator (demo_conf 1) False False = InferenceHGG False"
    by simp
  from b have "selections (trace_of (process demo_models (demo_conf 1) demo_houses ''gnn.ckpt'' False False True))
       = [(select_graph_generator (demo_conf 1) False True, demo_houses)]"
    by blast
  then have 4: "selections (trace_of (process demo_models (demo_conf 1) demo_houses ''gnn.ckpt'' False False True))
       = [(GetGraphGenerator ''val_hgg'' False, demo_houses)]"
    by (simp only: 2)
  from 1 2 3 4 show ?thesis by (intro conjI)
qed

text \<open>
  Claim C4, as stated: the generators of training and of validation time include the
  ground-truth targets and only the inference generator withholds them. The code passes
  \<^verbatim>\<open>include_target=False\<close> on all three branches; with the training flag set, the
  generator that is built withholds the targets.
\<close>

theorem train_generator_withholds_targets:
  "map (\<lambda>x. include_target (fst x))
     (selections (trace_of (process demo_models (demo_conf 1) demo_houses ''gnn.ckpt'' False True False)))
   = [False]"
  by (simp add: selections_process select_graph_generator_def)

text \<open>
  Claim C4, amended: the three graph generators that can be selected all withhold the
  ground-truth targets, since each is built with \<^verbatim>\<open>include_target=False\<close>. They
  differ in which generator is built: the one the configuration names for training,
  the one it names for validation, or \<^verbatim>\<open>InferenceHGG\<close>.
\<close>

theorem generators_all_withhold_targets:
  assumes "\<not> (use_train_graph_generator \<and> use_val_graph_generator)"
  shows "map (\<lambda>x. include_target (fst x))
           (selections (trace_of (process m conf houses ck keep use_train_graph_generator
              use_val_graph_generator))) = [False]
         \<and> map fst (selections (trace_of (process m conf houses ck keep use_train_graph_generator
              use_val_graph_generator))) =
             [if use_train_graph_generator
              then GetGraphGenerator (train_graph_generator (texture_prop conf)) False
              else if use_val_graph_generator
              then GetGraphGenerator (val_graph_generator (texture_prop conf)) False
              else InferenceHGG False]"
  using assms by (simp add: selections_process select_graph_generator_def)

theorem generators_all_withhold_targets_witness:
  "\<not> (False \<and> True) \<and>
   map (\<lambda>x. include_target (fst x))
     (selections (trace_of (process demo_models (demo_conf 1) demo_houses ''gnn.ckpt'' True False True)))
     = [False] \<and>
   map fst
     (selections (trace_of (process demo_models (demo_conf 1) demo_houses ''gnn.ckpt'' True False True)))
     = [GetGraphGenerator ''val_hgg'' False]"
  using generators_all_withhold_targets
    [of False True demo_models "demo_conf 1" demo_houses "''gnn.ckpt''" True]
  by simp

subsection \<open>Texture synthesis\<close>

text \<open>
  Claim C7, as stated: every execution of \<^verbatim>\<open>process\<close> invokes \<^verbatim>\<open>fill_textures\<close>
  exactly once. An execution that fails the flag assertion never reaches line 65.
\<close>

theorem fill_textures_not_invoked_on_abort:
  "filter is_fill (events (process demo_models (demo_conf 1) demo_houses ''gnn.ckpt'' False True True))
     = []"
  by (simp add: process_abort_flags events_def)

text \<open>
  Claim C7, amended: every execution of \<^verbatim>\<open>process\<close> that returns normally invokes
  \<^verbatim>\<open>fill_textures\<close> exactly once, as its last call. It is invoked on the houses
  exactly as the batch loop left them, which have every house and every surface of the
  dictionary passed in; nothing before it is an invocation of \<^verbatim>\<open>fill_textures\<close>, and
  every entry of the batch loop, with the prediction of every batch, comes before it.
\<close>

theorem fill_textures_once_after_loop:
  assumes "result (process m conf houses ck keep t v) = Inr ()"
  shows "\<exists>pre hs2.
       trace_of (process m conf houses ck keep t v) =
         pre @ [(Log_synthesizing, hs2),
                (Fill_textures True GNN_PROP keep, fill_textures m hs2 GNN_PROP keep)]
     \<and> pre \<noteq> [] \<and> hs2 = snd (last pre)
     \<and> hs2 = fst (batch_loop m (device (texture_prop conf)) False (select_graph_generator conf t v)
                    (nat (bs (train (texture_prop conf)))) keep
                    [0..<loader_len (nat (bs (train (texture_prop conf)))) houses]
                    (if keep then houses else clear_predictions houses))
     \<and> filter is_fill (map fst pre) = []
     \<and> loop_events pre = loop_events (trace_of (process m conf houses ck keep t v))
     \<and> length (filter is_predict (map fst pre)) =
         loader_len (nat (bs (train (texture_prop conf)))) houses
     \<and> surface_keys hs2 = surface_keys houses
     \<and> final_houses (process m conf houses ck keep t v) = fill_textures m hs2 GNN_PROP keep"
  using assms by (rule process_normal_shape)

theorem fill_textures_once_after_loop_witness:
  "result (process demo_models (demo_conf 1) demo_houses ''gnn.ckpt'' True False False) = Inr ()
   \<and> (\<exists>pre hs2.
       trace_of (process demo_models (demo_conf 1) demo_houses ''gnn.ckpt'' True False False) =
         pre @ [(Log_synthesizing, hs2),
                (Fill_textures True GNN_PROP True, fill_textures demo_models hs2 GNN_PROP True)]
     \<and> pre \<noteq> [] \<and> hs2 = snd (last pre)
     \<and> filter is_fill (map fst pre) = []
     \<and> loop_events pre =
         loop_events (trace_of (process demo_models (demo_conf 1) demo_houses ''gnn.ckpt'' True False False))
     \<and> length (filter is_predict (map fst pre)) = 2
     \<and> surface_keys hs2 = surface_keys demo_houses
     \<and> final_houses (process demo_models (demo_conf 1) demo_houses ''gnn.ckpt'' True False False) =
         fill_textures demo_models hs2 GNN_PROP True)"
proof -
  let ?p = "process demo_models (demo_conf 1) demo_houses ''gnn.ckpt'' True False False"
  have r: "result ?p = Inr ()"
    by (simp add: process_def Let_def result_def)
  have n: "loader_len (nat (bs (train (texture_prop (demo_conf 1))))) demo_houses = 2"
    by (simp add: loader_len_def)
  from fill_textures_once_after_loop [OF r] obtain pre hs2 where
      "trace_of ?p = pre @ [(Log_synthesizing, hs2),
                (Fill_textures True GNN_PROP True, fill_textures demo_models hs2 GNN_PROP True)]"
      "pre \<noteq> []" "hs2 = snd (last pre)"
      "filter is_fill (map fst pre) = []"
      "loop_events pre = loop_events (trace_of ?p)"
      "length (filter is_predict (map fst pre)) =
         loader_len (nat (bs (train (texture_prop (demo_conf 1))))) demo_houses"
      "surface_keys hs2 = surface_keys demo_houses"
      "final_houses ?p = fill_textures demo_models hs2 GNN_PROP True"
    by blast
  with r n show ?thesis by metis
qed

text \<open>
  Claim C8. The only invocation of \<^verbatim>\<open>fill_textures\<close>, made when the run gets that
  far, passes \<^verbatim>\<open>keep_existing_predictions\<close> as \<^verbatim>\<open>skip_existing_textures\<close>, with
  logging on and the image source \<^verbatim>\<open>GNN_PROP\<close>; the houses that \<^verbatim>\<open>process\<close>
  ends with are what that invocation makes of the houses the batch loop left. So a
  surface that has a texture when the synthesis starts keeps it untouched if
  \<^verbatim>\<open>keep_existing_predictions\<close> is true, and has it replaced by the texture
  synthesized from its embedding if the flag is false.
\<close>

theorem skip_existing_textures_is_keep_flag:
  "filter is_fill (events (process m conf houses ck keep t v)) =
     (if result (process m conf houses ck keep t v) = Inr ()
      then [Fill_textures True GNN_PROP keep] else [])
   \<and> (result (process m conf houses ck keep t v) = Inr () \<longrightarrow>
        (\<exists>pre hs2.
           trace_of (process m conf houses ck keep t v) =
             pre @ [(Log_synthesizing, hs2),
                    (Fill_textures True GNN_PROP keep,
                     final_houses (process m conf houses ck keep t v))]
         \<and> pre \<noteq> [] \<and> hs2 = snd (last pre)
         \<and> hs2 = fst (batch_loop m (device (texture_prop conf)) False (select_graph_generator conf t v)
                        (nat (bs (train (texture_prop conf)))) keep
                        [0..<loader_len (nat (bs (train (texture_prop conf)))) houses]
                        (if keep then houses else clear_predictions houses))
         \<and> final_houses (process m conf houses ck keep t v) = fill_textures m hs2 GNN_PROP keep
         \<and> (\<forall>hk sk s. surface_at hs2 hk sk = Some s \<and> crop s \<noteq> None \<longrightarrow>
               (keep \<longrightarrow>
                  surface_at (final_houses (process m conf houses ck keep t v)) hk sk = Some s)
             \<and> (\<not> keep \<longrightarrow>
                  (\<forall>e. embedding s = Some e \<longrightarrow>
                     surface_at (final_houses (process m conf houses ck keep t v)) hk sk =
                       Some (s\<lparr>crop := Some (synth m GNN_PROP e)\<rparr>))))))"
proof -
  let ?p = "process m conf houses ck keep t v"
  have a: "filter is_fill (events ?p) =
     (if result ?p = Inr () then [Fill_textures True GNN_PROP keep] else [])"
  proof (cases "\<not> (t \<and> v)")
    case f: True
    show ?thesis
    proof (cases "0 < bs (train (texture_prop conf))")
      case True
      show ?thesis
        by (simp add: process_normal [OF f True] events_def result_def batch_loop_fills batch_loop_no_fill)
    next
      case False
      then show ?thesis
        by (simp add: process_abort_bs [OF f] events_def result_def)
    qed
  next
    case False
    then show ?thesis
      by (simp add: process_abort_flags events_def result_def)
  qed
  have b: "\<exists>pre hs2.
           trace_of ?p =
             pre @ [(Log_synthesizing, hs2), (Fill_textures True GNN_PROP keep, final_houses ?p)]
         \<and> pre \<noteq> [] \<and> hs2 = snd (last pre)
         \<and> hs2 = fst (batch_loop m (device (texture_prop conf)) False (select_graph_generator conf t v)
                        (nat (bs (train (texture_prop conf)))) keep
                        [0..<loader_len (nat (bs (train (texture_prop conf)))) houses]
                        (if keep then houses else clear_predictions houses))
         \<and> final_houses ?p = fill_textures m hs2 GNN_PROP keep
         \<and> (\<forall>hk sk s. surface_at hs2 hk sk = Some s \<and> crop s \<noteq> None \<longrightarrow>
               (keep \<longrightarrow> surface_at (final_houses ?p) hk sk = Some s)
             \<and> (\<not> keep \<longrightarrow>
                  (\<forall>e. embedding s = Some e \<longrightarrow>
                     surface_at (final_houses ?p) hk sk =
                       Some (s\<lparr>crop := Some (synth m GNN_PROP e)\<rparr>))))"
    if r: "result ?p = Inr ()"
  proof -
    from process_normal_shape [OF r] obtain pre hs2 where
      tr: "trace_of ?p = pre @ [(Log_synthesizing, hs2),
                (Fill_textures True GNN_PROP keep, fill_textures m hs2 GNN_PROP keep)]"
      and ne: "pre \<noteq> []" and hs2: "hs2 = snd (last pre)"
      and lp: "hs2 = fst (batch_loop m (device (texture_prop conf)) False (select_graph_generator conf t v)
                        (nat (bs (train (texture_prop conf)))) keep
                        [0..<loader_len (nat (bs (train (texture_prop conf)))) houses]
                        (if keep then houses else clear_predictions houses))"
      and fin: "final_houses ?p = fill_textures m hs2 GNN_PROP keep"
      by blast
    have tr': "trace_of ?p =
             pre @ [(Log_synthesizing, hs2), (Fill_textures True GNN_PROP keep, final_houses ?p)]"
      using tr fin by simp
    have skip: "(keep \<longrightarrow> surface_at (final_houses ?p) hk sk = Some s)
             \<and> (\<not> keep \<longrightarrow>
                  (\<forall>e. embedding s = Some e \<longrightarrow>
                     surface_at (final_houses ?p) hk sk =
                       Some (s\<lparr>crop := Some (synth m GNN_PROP e)\<rparr>)))"
      if "surface_at hs2 hk sk = Some s \<and> crop s \<noteq> None" for hk sk s
      using that unfolding fin
      by (auto simp add: surface_at_fill_textures split: option.splits)
    have "\<forall>hk sk s. surface_at hs2 hk sk = Some s \<and> crop s \<noteq> None \<longrightarrow>
               (keep \<longrightarrow> surface_at (final_houses ?p) hk sk = Some s)
             \<and> (\<not> keep \<longrightarrow>
                  (\<forall>e. embedding s = Some e \<longrightarrow>
                     surface_at (final_houses ?p) hk sk =
                       Some (s\<lparr>crop := Some (synth m GNN_PROP e)\<rparr>)))"
      using skip by blast
    with tr' ne hs2 lp fin show ?thesis
      by (intro exI [of _ pre] exI [of _ hs2] conjI)
  qed
  from a b show ?thesis by blast
qed

theorem skip_existing_textures_is_keep_flag_witness:
  "filter is_fill (events (process demo_models (demo_conf 1) demo_houses ''gnn.ckpt'' True False False))
     = [Fill_textures True GNN_PROP True]
   \<and> filter is_fill (events (process demo_models (demo_conf 1) demo_houses ''gnn.ckpt'' False False False))
     = [Fill_textures True GNN_PROP False]
   \<and> (\<exists>pre hs2.
         trace_of (process demo_models (demo_conf 1) demo_houses ''gnn.ckpt'' True False False) =
           pre @ [(Log_synthesizing, hs2),
                  (Fill_textures True GNN_PROP True,
                   final_houses (process demo_models (demo_conf 1) demo_houses ''gnn.ckpt'' True False False))]
       \<and> pre \<noteq> [] \<and> hs2 = snd (last pre)
       \<and> final_houses (process demo_models (demo_conf 1) demo_houses ''gnn.ckpt'' True False False) =
           fill_textures demo_models hs2 GNN_PROP True)
   \<and> surface_at (final_houses (process demo_models (demo_conf 1) demo_houses ''gnn.ckpt'' True False False))
       ''h1'' ''floor'' = Some \<lparr>crop = Some 1, embedding = Some 5\<rparr>
   \<and> surface_at (final_houses (process demo_models (demo_conf 1) demo_houses ''gnn.ckpt'' False False False))
       ''h1'' ''floor'' = Some \<lparr>crop = Some 107, embedding = Some 7\<rparr>"
proof -
  let ?pT = "process demo_models (demo_conf 1) demo_houses ''gnn.ckpt'' True False False"
  let ?pF = "process demo_models (demo_conf 1) demo_houses ''gnn.ckpt'' False False False"
  have rT: "result ?pT = Inr ()"
    by (simp add: process_def Let_def result_def)
  have rF: "result ?pF = Inr ()"
    by (simp add: process_def Let_def result_def)
  note T = skip_existing_textures_is_keep_flag
             [of demo_models "demo_conf 1" demo_houses "''gnn.ckpt''" True False False]
  note F = skip_existing_textures_is_keep_flag
             [of demo_models "demo_conf 1" demo_houses "''gnn.ckpt''" False False False]
  from T rT have 1: "filter is_fill (events ?pT) = [Fill_textures True GNN_PROP True]"
    by (simp only: if_True simp_thms)
  from F rF have 2: "filter is_fill (events ?pF) = [Fill_textures True GNN_PROP False]"
    by (simp only: if_True simp_thms)
  from T rT obtain pre hs2 where
      "trace_of ?pT = pre @ [(Log_synthesizing, hs2),
                  (Fill_textures True GNN_PROP True, final_houses ?pT)]"
      "pre \<noteq> []" "hs2 = snd (last pre)"
      "final_houses ?pT = fill_textures demo_models hs2 GNN_PROP True"
    by blast
  then have 3: "\<exists>pre hs2.
         trace_of ?pT = pre @ [(Log_synthesizing, hs2),
                  (Fill_textures True GNN_PROP True, final_houses ?pT)]
       \<and> pre \<noteq> [] \<and> hs2 = snd (last pre)
       \<and> final_houses ?pT = fill_textures demo_models hs2 GNN_PROP True"
    by blast
  have 4: "surface_at (final_houses ?pT) ''h1'' ''floor'' = Some \<lparr>crop = Some 1, embedding = Some 5\<rparr>"
    by code_simp
  have 5: "surface_at (final_houses ?pF) ''h1'' ''floor'' = Some \<lparr>crop = Some 107, embedding = Some 7\<rparr>"
    by code_simp
  from 1 2 3 4 5 show ?thesis by (intro conjI)
qed

subsection \<open>The propagation pass\<close>

text \<open>
  Claim C6. In a run that returns, the houses pass through a chain of states, one per
  batch of the data loader, that starts with the houses as they enter the loop. For
  each batch, in the order of emission, the trace holds the log line with the index of
  the batch, then the prediction of the propagation network on the batch built from the
  current state, with gradient tracking off, then the merge of that very prediction by
  \<^verbatim>\<open>update_embeddings\<close>, which is handed \<^verbatim>\<open>keep_existing_predictions\<close>. The
  merged houses are the state that the next batch starts from, and what the last merge
  leaves is what the texture synthesis receives.
\<close>

theorem batches_in_order:
  assumes "result (process m conf houses ck keep t v) = Inr ()"
  shows "\<exists>sts.
      length sts = Suc (loader_len (nat (bs (train (texture_prop conf)))) houses)
    \<and> sts ! 0 = (if keep then houses else clear_predictions houses)
    \<and> length (loop_events (trace_of (process m conf houses ck keep t v))) =
         3 * loader_len (nat (bs (train (texture_prop conf)))) houses
    \<and> (\<forall>i < loader_len (nat (bs (train (texture_prop conf)))) houses.
          \<exists>b. b = loader_batch (select_graph_generator conf t v)
                     (nat (bs (train (texture_prop conf)))) (sts ! i) i
          \<and> loop_events (trace_of (process m conf houses ck keep t v)) ! (3 * i) =
              (Log_batch i (loader_len (nat (bs (train (texture_prop conf)))) houses), sts ! i)
          \<and> loop_events (trace_of (process m conf houses ck keep t v)) ! (3 * i + 1) =
              (Predict (device (texture_prop conf)) False b, sts ! i)
          \<and> loop_events (trace_of (process m conf houses ck keep t v)) ! (3 * i + 2) =
              (Update_embeddings b (predict m b) keep, sts ! Suc i)
          \<and> sts ! Suc i = update_embeddings (sts ! i) b (predict m b) keep)
    \<and> final_houses (process m conf houses ck keep t v) =
        fill_textures m (sts ! loader_len (nat (bs (train (texture_prop conf)))) houses)
          GNN_PROP keep"
proof -
  from assms have f: "\<not> (t \<and> v)" and b: "0 < bs (train (texture_prop conf))"
    by (simp_all add: process_returns_iff)
  let ?n = "nat (bs (train (texture_prop conf)))"
  let ?N = "loader_len ?n houses"
  let ?hs1 = "if keep then houses else clear_predictions houses"
  let ?g = "select_graph_generator conf t v"
  let ?dev = "device (texture_prop conf)"
  let ?r = "batch_loop m ?dev False ?g ?n keep [0..<?N] ?hs1"
  let ?L = "loop_events (trace_of (process m conf houses ck keep t v))"
  have tr: "?L = snd ?r"
    by (rule loop_events_process [OF f b])
  have len: "length ?L = 3 * ?N"
    unfolding tr by (simp add: batch_loop_length)
  have N1: "loader_len ?n ?hs1 = ?N" by simp
  have fin: "final_houses (process m conf houses ck keep t v) = fill_textures m (fst ?r) GNN_PROP keep"
    by (simp add: process_normal [OF f b] final_houses_def)
  from batch_loop_states [of "[0..<?N]" ?hs1 m ?dev False ?g ?n keep]
  obtain sts where
    l: "length sts = Suc (length [0..<?N])"
    and s0: "sts ! 0 = ?hs1"
    and out: "fst ?r = sts ! length [0..<?N]"
    and step: "\<forall>k < length [0..<?N].
          length (sts ! k) = length ?hs1
        \<and> sts ! Suc k =
            update_embeddings (sts ! k) (loader_batch ?g ?n (sts ! k) ([0..<?N] ! k))
              (predict m (loader_batch ?g ?n (sts ! k) ([0..<?N] ! k))) keep
        \<and> snd ?r ! (3 * k) = (Log_batch ([0..<?N] ! k) (loader_len ?n ?hs1), sts ! k)
        \<and> snd ?r ! (3 * k + 1) =
            (Predict ?dev False (loader_batch ?g ?n (sts ! k) ([0..<?N] ! k)), sts ! k)
        \<and> snd ?r ! (3 * k + 2) =
            (Update_embeddings (loader_batch ?g ?n (sts ! k) ([0..<?N] ! k))
               (predict m (loader_batch ?g ?n (sts ! k) ([0..<?N] ! k))) keep,
             sts ! Suc k)"
    by blast
  have l': "length sts = Suc ?N" using l by simp
  have out': "final_houses (process m conf houses ck keep t v) = fill_textures m (sts ! ?N) GNN_PROP keep"
    using fin out by simp
  have each: "\<exists>b. b = loader_batch ?g ?n (sts ! i) i
          \<and> ?L ! (3 * i) = (Log_batch i ?N, sts ! i)
          \<and> ?L ! (3 * i + 1) = (Predict ?dev False b, sts ! i)
          \<and> ?L ! (3 * i + 2) = (Update_embeddings b (predict m b) keep, sts ! Suc i)
          \<and> sts ! Suc i = update_embeddings (sts ! i) b (predict m b) keep"
    if i: "i < ?N" for i
  proof -
    from i have k: "i < length [0..<?N]" by simp
    from i have nth: "[0..<?N] ! i = i" by simp
    from step k have
        "sts ! Suc i =
            update_embeddings (sts ! i) (loader_batch ?g ?n (sts ! i) ([0..<?N] ! i))
              (predict m (loader_batch ?g ?n (sts ! i) ([0..<?N] ! i))) keep"
        "snd ?r ! (3 * i) = (Log_batch ([0..<?N] ! i) (loader_len ?n ?hs1), sts ! i)"
        "snd ?r ! (3 * i + 1) =
            (Predict ?dev False (loader_batch ?g ?n (sts ! i) ([0..<?N] ! i)), sts ! i)"
        "snd ?r ! (3 * i + 2) =
            (Update_embeddings (loader_batch ?g ?n (sts ! i) ([0..<?N] ! i))
               (predict m (loader_batch ?g ?n (sts ! i) ([0..<?N] ! i))) keep,
             sts ! Suc i)"
      by blast+
    then show ?thesis unfolding nth N1 tr by blast
  qed
  from l' s0 len each out' show ?thesis by blast
qed

theorem batches_in_order_witness:
  "result (process demo_models (demo_conf 1) demo_houses ''gnn.ckpt'' True False False) = Inr ()
   \<and> (\<exists>sts.
        length sts = 3
      \<and> sts ! 0 = demo_houses
      \<and> length (loop_events (trace_of (process demo_models (demo_conf 1) demo_houses ''gnn.ckpt'' True False False))) = 6
      \<and> (\<exists>b. b = loader_batch (InferenceHGG False) 1 (sts ! 0) 0
          \<and> loop_events (trace_of (process demo_models (demo_conf 1) demo_houses ''gnn.ckpt'' True False False)) ! 0 =
              (Log_batch 0 2, sts ! 0)
          \<and> loop_events (trace_of (process demo_models (demo_conf 1) demo_houses ''gnn.ckpt'' True False False)) ! 1 =
              (Predict ''cpu'' False b, sts ! 0)
          \<and> loop_events (trace_of (process demo_models (demo_conf 1) demo_houses ''gnn.ckpt'' True False False)) ! 2 =
              (Update_embeddings b (predict demo_models b) True, sts ! 1)
          \<and> sts ! 1 = update_embeddings (sts ! 0) b (predict demo_models b) True)
      \<and> (\<exists>b. b = loader_batch (InferenceHGG False) 1 (sts ! 1) 1
          \<and> loop_events (trace_of (process demo_models (demo_conf 1) demo_houses ''gnn.ckpt'' True False False)) ! 3 =
              (Log_batch 1 2, sts ! 1)
          \<and> loop_events (trace_of (process demo_models (demo_conf 1) demo_houses ''gnn.ckpt'' True False False)) ! 4 =
              (Predict ''cpu'' False b, sts ! 1)
          \<and> loop_events (trace_of (process demo_models (demo_conf 1) demo_houses ''gnn.ckpt'' True False False)) ! 5 =
              (Update_embeddings b (predict demo_models b) True, sts ! 2)
          \<and> sts ! 2 = update_embeddings (sts ! 1) b (predict demo_models b) True)
      \<and> final_houses (process demo_models (demo_conf 1) demo_houses ''gnn.ckpt'' True False False) =
          fill_textures demo_models (sts ! 2) GNN_PROP True)"
proof -
  let ?p = "process demo_models (demo_conf 1) demo_houses ''gnn.ckpt'' True False False"
  let ?L = "loop_events (trace_of ?p)"
  have r: "result ?p = Inr ()"
    by (simp add: process_def Let_def result_def)
  have n: "loader_len (nat (bs (train (texture_prop (demo_conf 1))))) demo_houses = 2"
    by (simp add: loader_len_def)
  have g: "select_graph_generator (demo_conf 1) False False = InferenceHGG False"
    by (simp add: select_graph_generator_def)
  from batches_in_order [OF r] obtain sts where
      l: "length sts = Suc (loader_len (nat (bs (train (texture_prop (demo_conf 1))))) demo_houses)"
    and s0: "sts ! 0 = (if True then demo_houses else clear_predictions demo_houses)"
    and len: "length ?L = 3 * loader_len (nat (bs (train (texture_prop (demo_conf 1))))) demo_houses"
    and step: "\<forall>i < loader_len (nat (bs (train (texture_prop (demo_conf 1))))) demo_houses.
          \<exists>b. b = loader_batch (select_graph_generator (demo_conf 1) False False)
                     (nat (bs (train (texture_prop (demo_conf 1))))) (sts ! i) i
          \<and> ?L ! (3 * i) =
              (Log_batch i (loader_len (nat (bs (train (texture_prop (demo_conf 1))))) demo_houses), sts ! i)
          \<and> ?L ! (3 * i + 1) = (Predict (device (texture_prop (demo_conf 1))) False b, sts ! i)
          \<and> ?L ! (3 * i + 2) = (Update_embeddings b (predict demo_models b) True, sts ! Suc i)
          \<and> sts ! Suc i = update_embeddings (sts ! i) b (predict demo_models b) True"
    and out: "final_houses ?p =
        fill_textures demo_models (sts ! loader_len (nat (bs (train (texture_prop (demo_conf 1))))) demo_houses)
          GNN_PROP True"
    by blast
  have l': "length sts = 3" using l n by simp
  have s0': "sts ! 0 = demo_houses" using s0 by simp
  have len': "length ?L = 6" using len n by simp
  have out': "final_houses ?p = fill_textures demo_models (sts ! 2) GNN_PROP True"
    using out n by simp
  have step': "\<exists>b. b = loader_batch (InferenceHGG False) 1 (sts ! i) i
          \<and> ?L ! (3 * i) = (Log_batch i 2, sts ! i)
          \<and> ?L ! (3 * i + 1) = (Predict ''cpu'' False b, sts ! i)
          \<and> ?L ! (3 * i + 2) = (Update_embeddings b (predict demo_models b) True, sts ! Suc i)
          \<and> sts ! Suc i = update_embeddings (sts ! i) b (predict demo_models b) True"
    if "i < 2" for i
  proof -
    from that n have "i < loader_len (nat (bs (train (texture_prop (demo_conf 1))))) demo_houses"
      by simp
    with step obtain b where
        "b = loader_batch (select_graph_generator (demo_conf 1) False False)
                     (nat (bs (train (texture_prop (demo_conf 1))))) (sts ! i) i"
        "?L ! (3 * i) =
              (Log_batch i (loader_len (nat (bs (train (texture_prop (demo_conf 1))))) demo_houses), sts ! i)"
        "?L ! (3 * i + 1) = (Predict (device (texture_prop (demo_conf 1))) False b, sts ! i)"
        "?L ! (3 * i + 2) = (Update_embeddings b (predict demo_models b) True, sts ! Suc i)"
        "sts ! Suc i = update_embeddings (sts ! i) b (predict demo_models b) True"
      by blast
    then have
        "b = loader_batch (InferenceHGG False) 1 (sts ! i) i"
        "?L ! (3 * i) = (Log_batch i 2, sts ! i)"
        "?L ! (3 * i + 1) = (Predict ''cpu'' False b, sts ! i)"
        "?L ! (3 * i + 2) = (Update_embeddings b (predict demo_models b) True, sts ! Suc i)"
        "sts ! Suc i = update_embeddings (sts ! i) b (predict demo_models b) True"
      unfolding n g by simp_all
    then show ?thesis by blast
  qed
  have e: "3 * 0 = (0::nat)" "3 * 0 + 1 = (1::nat)" "3 * 0 + 2 = (2::nat)"
    "3 * 1 = (3::nat)" "3 * 1 + 1 = (4::nat)" "3 * 1 + 2 = (5::nat)"
    "Suc 0 = 1" "Suc 1 = 2"
    "0 + 1 = (1::nat)" "0 + 2 = (2::nat)" "3 + 1 = (4::nat)" "3 + 2 = (5::nat)" by simp_all
  have i0: "(0::nat) < 2" and i1: "(1::nat) < 2" by simp_all
  from step' [OF i0] obtain b0 where
      f0: "b0 = loader_batch (InferenceHGG False) 1 (sts ! 0) 0"
      "?L ! (3 * 0) = (Log_batch 0 2, sts ! 0)"
      "?L ! (3 * 0 + 1) = (Predict ''cpu'' False b0, sts ! 0)"
      "?L ! (3 * 0 + 2) = (Update_embeddings b0 (predict demo_models b0) True, sts ! Suc 0)"
      "sts ! Suc 0 = update_embeddings (sts ! 0) b0 (predict demo_models b0) True"
    by blast
  have c0: "\<exists>b. b = loader_batch (InferenceHGG False) 1 (sts ! 0) 0
          \<and> ?L ! 0 = (Log_batch 0 2, sts ! 0)
          \<and> ?L ! 1 = (Predict ''cpu'' False b, sts ! 0)
          \<and> ?L ! 2 = (Update_embeddings b (predict demo_models b) True, sts ! 1)
          \<and> sts ! 1 = update_embeddings (sts ! 0) b (predict demo_models b) True"
    using f0 [unfolded e] by (intro exI [of _ b0] conjI)
  from step' [OF i1] obtain b1 where
      f1: "b1 = loader_batch (InferenceHGG False) 1 (sts ! 1) 1"
      "?L ! (3 * 1) = (Log_batch 1 2, sts ! 1)"
      "?L ! (3 * 1 + 1) = (Predict ''cpu'' False b1, sts ! 1)"
      "?L ! (3 * 1 + 2) = (Update_embeddings b1 (predict demo_models b1) True, sts ! Suc 1)"
      "sts ! Suc 1 = update_embeddings (sts ! 1) b1 (predict demo_models b1) True"
    by blast
  have c1: "\<exists>b. b = loader_batch (InferenceHGG False) 1 (sts ! 1) 1
          \<and> ?L ! 3 = (Log_batch 1 2, sts ! 1)
          \<and> ?L ! 4 = (Predict ''cpu'' False b, sts ! 1)
          \<and> ?L ! 5 = (Update_embeddings b (predict demo_models b) True, sts ! 2)
          \<and> sts ! 2 = update_embeddings (sts ! 1) b (predict demo_models b) True"
    using f1 [unfolded e] by (intro exI [of _ b1] conjI)
  have "\<exists>sts.
        length sts = 3
      \<and> sts ! 0 = demo_houses
      \<and> length ?L = 6
      \<and> (\<exists>b. b = loader_batch (InferenceHGG False) 1 (sts ! 0) 0
          \<and> ?L ! 0 = (Log_batch 0 2, sts ! 0)
          \<and> ?L ! 1 = (Predict ''cpu'' False b, sts ! 0)
          \<and> ?L ! 2 = (Update_embeddings b (predict demo_models b) True, sts ! 1)
          \<and> sts ! 1 = update_embeddings (sts ! 0) b (predict demo_models b) True)
      \<and> (\<exists>b. b = loader_batch (InferenceHGG False) 1 (sts ! 1) 1
          \<and> ?L ! 3 = (Log_batch 1 2, sts ! 1)
          \<and> ?L ! 4 = (Predict ''cpu'' False b, sts ! 1)
          \<and> ?L ! 5 = (Update_embeddings b (predict demo_models b) True, sts ! 2)
          \<and> sts ! 2 = update_embeddings (sts ! 1) b (predict demo_models b) True)
      \<and> final_houses ?p = fill_textures demo_models (sts ! 2) GNN_PROP True"
    using l' s0' len' c0 c1 out' by (intro exI [of _ sts] conjI)
  with r show ?thesis by (intro conjI)
qed

text \<open>
  Claim C2. With \<^verbatim>\<open>keep_existing_predictions\<close> false, \<^verbatim>\<open>clear_predictions\<close> leaves
  no surface of any house with an embedding, and every prediction that the batch loop
  makes comes after that call. In a run that returns, the call is the fifth entry of the
  trace and, if there is a batch at all, the first prediction is made on the cleared
  houses.
\<close>

theorem predictions_cleared_before_propagation:
  assumes "\<not> keep"
  shows "all_cleared (clear_predictions houses)
       \<and> (\<forall>i < length (trace_of (process m conf houses ck keep t v)).
            is_predict (fst (trace_of (process m conf houses ck keep t v) ! i)) \<longrightarrow>
            (\<exists>j < i. trace_of (process m conf houses ck keep t v) ! j =
                       (Clear_predictions, clear_predictions houses)))
       \<and> (result (process m conf houses ck keep t v) = Inr () \<longrightarrow>
            trace_of (process m conf houses ck keep t v) ! 4 =
              (Clear_predictions, clear_predictions houses)
          \<and> (0 < loader_len (nat (bs (train (texture_prop conf)))) houses \<longrightarrow>
               trace_of (process m conf houses ck keep t v) ! 6 =
                 (Predict (device (texture_prop conf)) False
                    (loader_batch (select_graph_generator conf t v)
                       (nat (bs (train (texture_prop conf)))) (clear_predictions houses) 0),
                  clear_predictions houses)))"
proof (cases "result (process m conf houses ck keep t v) = Inr ()")
  case True
  then have f: "\<not> (t \<and> v)" and b: "0 < bs (train (texture_prop conf))"
    by (simp_all add: process_returns_iff)
  let ?tr = "trace_of (process m conf houses ck keep t v)"
  let ?n = "nat (bs (train (texture_prop conf)))"
  let ?r = "batch_loop m (device (texture_prop conf)) False (select_graph_generator conf t v)
              ?n keep [0..<loader_len ?n houses] (clear_predictions houses)"
  have tr: "?tr =
      (Load_conf_eval (texture_synth_conf (texture_gen conf)), houses) #
      (TextureGen_load_checkpoint (checkpoint_path (texture_gen conf)), houses) #
      (TextureProp_load_checkpoint ck, houses) #
      (Select_graph_generator (select_graph_generator conf t v), houses) #
      (Clear_predictions, clear_predictions houses) #
      (snd ?r @ [(Log_synthesizing, fst ?r),
                 (Fill_textures True GNN_PROP keep, fill_textures m (fst ?r) GNN_PROP keep)])"
    using assms by (simp add: process_normal [OF f b] trace_of_def)
  have four: "?tr ! 4 = (Clear_predictions, clear_predictions houses)"
    unfolding tr by simp
  have early: "\<not> is_predict (fst (?tr ! i))" if "i < 5" for i
  proof -
    from that have "i = 0 \<or> i = 1 \<or> i = 2 \<or> i = 3 \<or> i = 4" by arith
    then show ?thesis unfolding tr by auto
  qed
  have before: "\<exists>j < i. ?tr ! j = (Clear_predictions, clear_predictions houses)"
    if "is_predict (fst (?tr ! i))" for i
  proof -
    from that early [of i] have "4 < i" by (cases "i < 5") simp_all
    with four show ?thesis by blast
  qed
  have six: "?tr ! 6 =
                 (Predict (device (texture_prop conf)) False
                    (loader_batch (select_graph_generator conf t v) ?n (clear_predictions houses) 0),
                  clear_predictions houses)"
    if N: "0 < loader_len ?n houses"
  proof -
    have l: "1 < length (snd ?r)" using N by (simp add: batch_loop_length)
    have "?tr ! 6 = (snd ?r @ [(Log_synthesizing, fst ?r),
                 (Fill_textures True GNN_PROP keep, fill_textures m (fst ?r) GNN_PROP keep)]) ! 1"
      unfolding tr by simp
    also have "\<dots> = snd ?r ! 1" using l by (simp add: nth_append)
    also have "\<dots> = (Predict (device (texture_prop conf)) False
                    (loader_batch (select_graph_generator conf t v) ?n (clear_predictions houses) 0),
                  clear_predictions houses)"
      by (rule batch_loop_first [OF N])
    finally show ?thesis .
  qed
  from all_cleared_clear_predictions [of houses] four before six show ?thesis by blast
next
  case False
  let ?tr = "trace_of (process m conf houses ck keep t v)"
  have none: "\<not> is_predict (fst (?tr ! i))" if "i < length ?tr" for i
  proof (cases "t \<and> v")
    case True
    have tr: "?tr = [(Load_conf_eval (texture_synth_conf (texture_gen conf)), houses),
       (TextureGen_load_checkpoint (checkpoint_path (texture_gen conf)), houses),
       (TextureProp_load_checkpoint ck, houses)]"
      by (simp add: process_abort_flags [OF True] trace_of_def)
    from that have "i = 0 \<or> i = 1 \<or> i = 2" unfolding tr by (simp; arith)
    then show ?thesis unfolding tr by auto
  next
    case f: False
    with False have b: "bs (train (texture_prop conf)) \<le> 0"
      by (simp add: process_returns_iff)
    have tr: "?tr = [(Load_conf_eval (texture_synth_conf (texture_gen conf)), houses),
       (TextureGen_load_checkpoint (checkpoint_path (texture_gen conf)), houses),
       (TextureProp_load_checkpoint ck, houses),
       (Select_graph_generator (select_graph_generator conf t v), houses)]"
      by (simp add: process_abort_bs [OF f b] trace_of_def)
    from that have "i = 0 \<or> i = 1 \<or> i = 2 \<or> i = 3" unfolding tr by (simp; arith)
    then show ?thesis unfolding tr by auto
  qed
  with False all_cleared_clear_predictions [of houses] show ?thesis by blast
qed

theorem predictions_cleared_before_propagation_witness:
  "\<not> False
   \<and> all_cleared (clear_predictions demo_houses)
   \<and> trace_of (process demo_models (demo_conf 1) demo_houses ''gnn.ckpt'' False False False) ! 4 =
       (Clear_predictions, clear_predictions demo_houses)
   \<and> trace_of (process demo_models (demo_conf 1) demo_houses ''gnn.ckpt'' False False False) ! 6 =
       (Predict ''cpu'' False (loader_batch (InferenceHGG False) 1 (clear_predictions demo_houses) 0),
        clear_predictions demo_houses)"
proof -
  have r: "result (process demo_models (demo_conf 1) demo_houses ''gnn.ckpt'' False False False) = Inr ()"
    by (simp add: process_def Let_def result_def)
  have n: "loader_len (nat (bs (train (texture_prop (demo_conf 1))))) demo_houses = 2"
    by (simp add: loader_len_def)
  have g: "select_graph_generator (demo_conf 1) False False = InferenceHGG False"
    by (simp add: select_graph_generator_def)
  have k: "\<not> False" by simp
  from predictions_cleared_before_propagation
         [OF k, of demo_houses demo_models "demo_conf 1" "''gnn.ckpt''" False False]
  show ?thesis unfolding n g using r by simp
qed

text \<open>
  Claim C1. With \<^verbatim>\<open>keep_existing_predictions\<close> true, a surface that holds an embedding
  when \<^verbatim>\<open>process\<close> is called holds the same embedding when \<^verbatim>\<open>process\<close> is done,
  whatever the graph generator flags are and however the run ends. Put the other way
  round: if the embedding of a surface is not the same after the run, then
  \<^verbatim>\<open>keep_existing_predictions\<close> was false or the surface had no embedding.
\<close>

theorem existing_embeddings_kept:
  assumes "surface_at houses hk sk = Some s"
  shows "(keep \<and> embedding s \<noteq> None \<longrightarrow>
            (\<exists>s'. surface_at (final_houses (process m conf houses ck keep t v)) hk sk = Some s'
                  \<and> embedding s' = embedding s))
       \<and> (\<forall>s'. surface_at (final_houses (process m conf houses ck keep t v)) hk sk = Some s'
                  \<and> embedding s' \<noteq> embedding s \<longrightarrow> \<not> keep \<or> embedding s = None)"
proof -
  have kept: "\<exists>s'. surface_at (final_houses (process m conf houses ck keep t v)) hk sk = Some s'
              \<and> embedding s' = embedding s"
    if "keep" and "embedding s \<noteq> None"
    using that(1) assms that(2) by (rule process_keeps_embedding)
  have changed: "\<not> keep \<or> embedding s = None"
    if "surface_at (final_houses (process m conf houses ck keep t v)) hk sk = Some s'"
      and "embedding s' \<noteq> embedding s" for s'
  proof (rule ccontr)
    assume "\<not> (\<not> keep \<or> embedding s = None)"
    then have "keep" and "embedding s \<noteq> None" by simp_all
    from kept [OF this] that show False by simp
  qed
  show ?thesis
  proof (intro conjI impI allI)
    assume "keep \<and> embedding s \<noteq> None"
    then show "\<exists>s'. surface_at (final_houses (process m conf houses ck keep t v)) hk sk = Some s'
              \<and> embedding s' = embedding s"
      using kept by blast
  next
    fix s'
    assume h: "surface_at (final_houses (process m conf houses ck keep t v)) hk sk = Some s'
                  \<and> embedding s' \<noteq> embedding s"
    from h have h1: "surface_at (final_houses (process m conf houses ck keep t v)) hk sk = Some s'"
      by (rule conjunct1)
    from h have h2: "embedding s' \<noteq> embedding s"
      by (rule conjunct2)
    from h1 h2 show "\<not> keep \<or> embedding s = None"
      by (rule changed)
  qed
qed

theorem existing_embeddings_kept_witness:
  "surface_at demo_houses ''h1'' ''floor'' = Some \<lparr>crop = Some 1, embedding = Some 5\<rparr>
   \<and> (\<exists>s'. surface_at
          (final_houses (process demo_models (demo_conf 1) demo_houses ''gnn.ckpt'' True False False))
          ''h1'' ''floor'' = Some s'
        \<and> embedding s' = Some 5)"
proof -
  have a: "surface_at demo_houses ''h1'' ''floor'' = Some \<lparr>crop = Some 1, embedding = Some (5::nat)\<rparr>"
    by (simp add: surface_at_def)
  have "\<exists>s'. surface_at
          (final_houses (process demo_models (demo_conf 1) demo_houses ''gnn.ckpt'' True False False))
          ''h1'' ''floor'' = Some s'
        \<and> embedding s' = embedding \<lparr>crop = Some (1::nat), embedding = Some (5::nat)\<rparr>"
    using existing_embeddings_kept [OF a, of True demo_models "demo_conf 1" "''gnn.ckpt''" False False,
            THEN conjunct1]
    by simp
  with a show ?thesis by simp
qed

subsection \<open>End to end\<close>

text \<open>
  Claim C9. With the default flags (\<^verbatim>\<open>keep_existing_predictions\<close> false, neither graph
  generator flag set), a surface of any house that has no crop when \<^verbatim>\<open>process\<close> is
  called has both an embedding and a crop once \<^verbatim>\<open>process\<close> has run.
\<close>

theorem unobserved_surface_gets_texture:
  assumes "result (process m conf houses ck False False False) = Inr ()"
    and "surface_at houses hk sk = Some s" and "crop s = None"
  shows "\<exists>s'. surface_at (final_houses (process m conf houses ck False False False)) hk sk = Some s'
              \<and> embedding s' \<noteq> None \<and> crop s' \<noteq> None"
proof -
  from assms(1) have b: "0 < bs (train (texture_prop conf))"
    by (simp add: process_returns_iff)
  let ?n = "nat (bs (train (texture_prop conf)))"
  let ?g = "select_graph_generator conf False False"
  let ?hs1 = "clear_predictions houses"
  let ?N = "loader_len ?n houses"
  let ?r = "batch_loop m (device (texture_prop conf)) False ?g ?n False [0..<?N] ?hs1"
  have fin: "final_houses (process m conf houses ck False False False) =
               fill_textures m (fst ?r) GNN_PROP False"
    using process_normal [of False False conf m houses ck False] b
    by (simp add: final_houses_def)
  have s1: "surface_at ?hs1 hk sk = Some (s\<lparr>embedding := None\<rparr>)"
    using assms(2) by (simp add: surface_at_clear_predictions)
  from b have n: "0 < ?n" by simp
  from surface_in_some_batch [OF s1 n, of ?g] obtain i where
    i: "i < ?N" and mem: "(hk, sk) \<in> set (map fst (batch_nodes (loader_batch ?g ?n ?hs1 i)))"
    by auto
  from i have "i \<in> set [0..<?N]" by simp
  from batch_loop_covers [OF s1 this mem, of m "device (texture_prop conf)" False False]
  obtain s2 where "surface_at (fst ?r) hk sk = Some s2" and "embedding s2 \<noteq> None" by blast
  from fill_textures_crop [OF this] show ?thesis
    unfolding fin .
qed

theorem unobserved_surface_gets_texture_witness:
  "result (process demo_models (demo_conf 1) demo_houses ''gnn.ckpt'' False False False) = Inr ()
   \<and> surface_at demo_houses ''h1'' ''wall'' = Some \<lparr>crop = None, embedding = None\<rparr>
   \<and> (\<exists>s'. surface_at
          (final_houses (process demo_models (demo_conf 1) demo_houses ''gnn.ckpt'' False False False))
          ''h1'' ''wall'' = Some s'
        \<and> embedding s' \<noteq> None \<and> crop s' \<noteq> None)"
proof -
  have r: "result (process demo_models (demo_conf 1) demo_houses ''gnn.ckpt'' False False False) = Inr ()"
    by (simp add: process_def Let_def result_def)
  have a: "surface_at demo_houses ''h1'' ''wall'' = Some \<lparr>crop = (None::nat option), embedding = (None::nat option)\<rparr>"
    by (simp add: surface_at_def)
  have c: "crop \<lparr>crop = (None::nat option), embedding = (None::nat option)\<rparr> = None" by simp
  from unobserved_surface_gets_texture [OF r a c] r a show ?thesis by simp
qed

end
